theory Spec2Isabelle
  imports Complex_Main "HOL-Library.Multiset"
begin

section \<open>bigg/experiments/sat_graphs/main.py: data model\<close>

text \<open>
  Exceptions of the Python program are values. \<open>AssertionError\<close> is what a failed
  \<^verbatim>\<open>assert\<close> raises (the spec calls the two uses CountMismatchError and
  IndexOutOfRangeError), \<open>ZeroDivisionError\<close> comes from \<^verbatim>\<open>/\<close> and \<^verbatim>\<open>%\<close>,
  \<open>IndexError\<close> from list indexing, \<open>EOFError\<close> and \<open>UnpicklingError\<close> from
  \<^verbatim>\<open>pickle.load\<close>, \<open>NetworkXError\<close> from asking a graph about a node it does not have.
\<close>

datatype error =
  AssertionError | ZeroDivisionError | IndexError | EOFError | UnpicklingError | NetworkXError

text \<open>
  A networkx graph as this file observes it: \<^verbatim>\<open>list(graph.nodes())\<close>,
  \<^verbatim>\<open>list(graph.neighbors(node))\<close>, \<^verbatim>\<open>g.edges()\<close> and \<^verbatim>\<open>g.degree(i)\<close>.
  Node identifiers are Python integers. \<^verbatim>\<open>len(g)\<close> is the number of nodes.
\<close>

record graph =
  nodes :: "int list"
  neighbors :: "int \<Rightarrow> int list"
  edges :: "(int \<times> int) list"
  degree :: "int \<Rightarrow> int"

definition len_graph :: "graph \<Rightarrow> nat" where
  "len_graph g = length (nodes g)"

text \<open>A stats record is the pair \<open>(n, m)\<close> of the left and right partition sizes.\<close>

type_synonym stat = "int \<times> int"

section \<open>load_graphs\<close>

text \<open>
  One call of \<^verbatim>\<open>cp.load(f)\<close> either returns the decoded object or raises. A pickle stream
  is the list of the outcomes of the successive calls; a call on the exhausted stream raises
  \<open>EOFError\<close>.
\<close>

datatype 'a load = Loaded 'a | Raised error

text \<open>
  The \<^verbatim>\<open>while True\<close> loop of lines 40 to 45: the bare \<^verbatim>\<open>except\<close> leaves the loop on any
  exception, the end of the stream included.
\<close>

fun read_records :: "'a load list \<Rightarrow> 'a list" where
  "read_records [] = []"
| "read_records (Raised e # rest) = []"
| "read_records (Loaded g # rest) = g # read_records rest"

text \<open>
  The graph-index builder \<^verbatim>\<open>TreeLib\<close> is external; its state is the list of the
  \<^verbatim>\<open>InsertGraph(g, bipart_stats=(n, m))\<close> calls made so far.
\<close>

type_synonym treelib = "(graph \<times> stat) list"

definition InsertGraph :: "graph \<Rightarrow> stat \<Rightarrow> treelib \<Rightarrow> treelib" where
  "InsertGraph g bipart_stats reg = reg @ [(g, bipart_stats)]"

fun insert_all :: "(graph \<times> stat) list \<Rightarrow> treelib \<Rightarrow> treelib" where
  "insert_all [] reg = reg"
| "insert_all ((g, st) # rest) reg = insert_all rest (InsertGraph g (fst st, snd st) reg)"

definition load_graphs ::
  "graph load list \<Rightarrow> stat list load \<Rightarrow> treelib \<Rightarrow> error + (graph list \<times> stat list \<times> treelib)" where
  "load_graphs graph_pkl stats_pkl reg =
     (let graphs = read_records graph_pkl in
      case stats_pkl of
        Raised e \<Rightarrow> Inl e
      | Loaded stats \<Rightarrow>
          if length graphs \<noteq> length stats then Inl AssertionError
          else Inr (graphs, stats, insert_all (zip graphs stats) reg))"

section \<open>LCG_to_sat\<close>

text \<open>\<^verbatim>\<open>"{}".format(n)\<close> for an integer: decimal digits, with a minus sign when negative.\<close>

fun str_nat :: "nat \<Rightarrow> string" where
  "str_nat n = (if n < 10 then [''0123456789'' ! n]
                else str_nat (n div 10) @ [''0123456789'' ! (n mod 10)])"

declare str_nat.simps [simp del]

definition str_int :: "int \<Rightarrow> string" where
  "str_int i = (if i < 0 then CHR ''-'' # str_nat (nat (- i)) else str_nat (nat i))"

text \<open>The inner loop of lines 65 to 70 over the neighbours of one clause node.\<close>

fun clause_lits :: "int \<Rightarrow> int list \<Rightarrow> string \<Rightarrow> error + string" where
  "clause_lits num_var [] clause = Inr clause"
| "clause_lits num_var (lit # lits) clause =
     (if lit < num_var then clause_lits num_var lits (clause @ str_int (lit + 1) @ '' '')
      else if lit < 2 * num_var
        then clause_lits num_var lits (clause @ str_int (- (lit - num_var + 1)) @ '' '')
      else Inl AssertionError)"

text \<open>The outer loop of lines 59 to 72 over the nodes, with the list \<^verbatim>\<open>clauses\<close>.\<close>

fun build_clauses :: "graph \<Rightarrow> int \<Rightarrow> int list \<Rightarrow> string list \<Rightarrow> error + string list" where
  "build_clauses g num_var [] clauses = Inr clauses"
| "build_clauses g num_var (node # rest) clauses =
     (if node \<ge> num_var * 2 then
        (if length (neighbors g node) = 0 then build_clauses g num_var rest clauses
         else case clause_lits num_var (neighbors g node) [] of
                Inl e \<Rightarrow> Inl e
              | Inr clause \<Rightarrow>
                  build_clauses g num_var rest (clauses @ [clause @ ''0\<newline>'']))
      else build_clauses g num_var rest clauses)"

text \<open>
  The result is the text written to \<^verbatim>\<open>save_name\<close>. The file is opened only after all
  clauses are built, so a failed assertion writes nothing.
\<close>

definition LCG_to_sat :: "graph \<Rightarrow> int \<Rightarrow> error + string" where
  "LCG_to_sat g num_var =
     (case build_clauses g num_var (nodes g) [] of
        Inl e \<Rightarrow> Inl e
      | Inr clauses \<Rightarrow>
          Inr (''c generated by G2SAT lcg\<newline>''
               @ (''p cnf '' @ str_int num_var @ '' '' @ str_int (int (length clauses)) @ ''\<newline>'')
               @ concat clauses))"

text \<open>
  What the format of one emitted clause line is, in the words of the spec: each literal as a
  signed integer followed by a space, then \<open>0\<close> and a newline; and which nodes emit one:
  the clause nodes with at least one neighbour.
\<close>

definition lit_token :: "int \<Rightarrow> int \<Rightarrow> string" where
  "lit_token num_var lit =
     (if lit < num_var then str_int (lit + 1) else str_int (- (lit - num_var + 1))) @ '' ''"

definition clause_line :: "int \<Rightarrow> int list \<Rightarrow> string" where
  "clause_line num_var lits = concat (map (lit_token num_var) lits) @ ''0\<newline>''"

definition emitting :: "graph \<Rightarrow> int \<Rightarrow> int \<Rightarrow> bool" where
  "emitting g num_var node \<longleftrightarrow> node \<ge> num_var * 2 \<and> neighbors g node \<noteq> []"

text \<open>
  The condition under which no assertion of line 69 fails: every neighbour of every clause
  node takes the first branch of line 66 or passes the assertion.
\<close>

definition passes_assert :: "graph \<Rightarrow> int \<Rightarrow> int list \<Rightarrow> bool" where
  "passes_assert g num_var ns \<longleftrightarrow>
     (\<forall>n\<in>set ns. num_var * 2 \<le> n \<longrightarrow>
        (\<forall>lit\<in>set (neighbors g n). lit < num_var \<or> lit < 2 * num_var))"

section \<open>get_ordered_edges\<close>

text \<open>Python's \<^verbatim>\<open>list.sort(key=...)\<close> is stable, as \<^const>\<open>sort_key\<close> is.\<close>

definition get_ordered_edges :: "graph \<Rightarrow> int \<Rightarrow> (int \<times> int) list" where
  "get_ordered_edges g offset =
     sort_key fst
       (map (\<lambda>e. let e' = (if fst e > snd e then (snd e, fst e) else e)
                  in (fst e', snd e' - offset))
            (edges g))"

section \<open>The evaluation loop (lines 122 to 134)\<close>

text \<open>
  \<^verbatim>\<open>g.degree(i)\<close> for a single node: the degree when \<open>i\<close> is a node of the graph, and
  \<open>NetworkXError\<close> otherwise. Line 123 asks for the nodes of \<^verbatim>\<open>range(stat[0])\<close> in order.
\<close>

definition py_degree :: "graph \<Rightarrow> int \<Rightarrow> error + int" where
  "py_degree g i = (if i \<in> set (nodes g) then Inr (degree g i) else Inl NetworkXError)"

fun degree_list_of :: "graph \<Rightarrow> int list \<Rightarrow> error + int list" where
  "degree_list_of g [] = Inr []"
| "degree_list_of g (i # rest) =
     (case py_degree g i of
        Inl e \<Rightarrow> Inl e
      | Inr d \<Rightarrow> (case degree_list_of g rest of Inl e \<Rightarrow> Inl e | Inr ds \<Rightarrow> Inr (d # ds)))"

text \<open>
  What the \<^verbatim>\<open>print\<close> of line 129 shows for one graph. The two ratios are floating point
  values, of the type \<open>'f\<close>.
\<close>

record 'f report =
  n_pred :: nat
  n_true :: nat
  precision :: 'f
  recall :: 'f

text \<open>
  The body of the loop for one graph \<open>g\<close> with its stats. The generation call of the model
  (line 125) and the construction of a networkx graph from an edge list (lines 131 and 132)
  are external, and are parameters: \<open>generate n lb_list ub_list col_range num_nodes\<close>
  gives the predicted edges, \<open>graph_of_edges\<close> the graph. So is Python's \<^verbatim>\<open>/\<close> on two
  integers: \<open>true_div a b\<close> is the floating point value of \<^verbatim>\<open>a / b\<close> for \<open>b \<noteq> 0\<close>; a zero
  divisor raises.
  Lines 123 to 126 give the predicted edges, with the right-partition index of each shifted
  up by \<^verbatim>\<open>stat[0]\<close>.
\<close>

definition predicted_edges ::
  "(int \<Rightarrow> int list \<Rightarrow> int list \<Rightarrow> int \<times> int \<Rightarrow> nat \<Rightarrow> (int \<times> int) list) \<Rightarrow>
   graph \<Rightarrow> stat \<Rightarrow> error + (int \<times> int) list" where
  "predicted_edges generate g stat =
     (case degree_list_of g [0 .. fst stat - 1] of
        Inl e \<Rightarrow> Inl e
      | Inr degree_list \<Rightarrow>
          Inr (map (\<lambda>e. (fst e, snd e + fst stat))
                 (generate (fst stat) degree_list degree_list (0, snd stat) (len_graph g))))"

text \<open>
  The arguments of \<^verbatim>\<open>print\<close> are evaluated from left to right, so an empty prediction
  raises before an empty ground truth does. The report is printed before the CNF file is
  encoded: the result is the report with the outcome of \<open>LCG_to_sat\<close>.
\<close>

definition eval_graph ::
  "(nat \<Rightarrow> nat \<Rightarrow> 'f) \<Rightarrow>
   (int \<Rightarrow> int list \<Rightarrow> int list \<Rightarrow> int \<times> int \<Rightarrow> nat \<Rightarrow> (int \<times> int) list) \<Rightarrow>
   ((int \<times> int) list \<Rightarrow> graph) \<Rightarrow> graph \<Rightarrow> stat \<Rightarrow> error + 'f report \<times> (error + string)" where
  "eval_graph true_div generate graph_of_edges g stat =
     (case predicted_edges generate g stat of
        Inl e \<Rightarrow> Inl e
      | Inr pred_edges \<Rightarrow>
          (let true_edges = get_ordered_edges g 0;
               common = set pred_edges \<inter> set true_edges
           in if length pred_edges = 0 then Inl ZeroDivisionError
              else if length true_edges = 0 then Inl ZeroDivisionError
              else Inr (\<lparr> n_pred = length pred_edges, n_true = length true_edges,
                          precision = true_div (card common) (length pred_edges),
                          recall = true_div (card common) (length true_edges) \<rparr>,
                        LCG_to_sat (graph_of_edges pred_edges) (fst stat div 2))))"

text \<open>
  The loop over \<^verbatim>\<open>zip(test_graphs, stats)\<close>: the reports and the files written so far, file
  \<open>gen_<g_idx>.cnf\<close> as the pair of \<open>g_idx\<close> and its text, until the first exception.
\<close>

fun eval_loop ::
  "(nat \<Rightarrow> nat \<Rightarrow> 'f) \<Rightarrow>
   (int \<Rightarrow> int list \<Rightarrow> int list \<Rightarrow> int \<times> int \<Rightarrow> nat \<Rightarrow> (int \<times> int) list) \<Rightarrow>
   ((int \<times> int) list \<Rightarrow> graph) \<Rightarrow> (graph \<times> stat) list \<Rightarrow> nat \<Rightarrow>
   'f report list \<times> (nat \<times> string) list \<times> error option" where
  "eval_loop true_div generate graph_of_edges [] g_idx = ([], [], None)"
| "eval_loop true_div generate graph_of_edges ((g, stat) # rest) g_idx =
     (case eval_graph true_div generate graph_of_edges g stat of
        Inl e \<Rightarrow> ([], [], Some e)
      | Inr (rep, Inl e) \<Rightarrow> ([rep], [], Some e)
      | Inr (rep, Inr text) \<Rightarrow>
          (case eval_loop true_div generate graph_of_edges rest (g_idx + 1) of
             (reps, files, err) \<Rightarrow> (rep # reps, (g_idx, text) # files, err)))"

section \<open>The training loop (lines 138 to 177)\<close>

text \<open>
  The fields of \<^verbatim>\<open>cmd_args\<close> that the loop reads. The type \<open>'f\<close> stands for the floating
  point values of the program; nothing is assumed about their arithmetic.
\<close>

record 'f cmd_args =
  batch_size :: int
  blksize :: int
  accum_grad :: int
  grad_clip :: 'f
  num_epochs :: int
  epoch_save :: int

text \<open>
  The calls that the loop makes on its collaborators (the random generator, the model, the
  chunked engine, the optimizer, the progress bar, the checkpoint file), in order. A call
  that returns a value records it: \<open>Shuffled\<close> holds the pool \<^verbatim>\<open>indices\<close> after
  \<^verbatim>\<open>random.shuffle\<close>, \<open>ForwardTrain\<close> the batch, the column ranges and the log-likelihood
  returned, \<open>SqrtnForwardBackward\<close> the graph id, \<^verbatim>\<open>num_nodes\<close>, \<^verbatim>\<open>blksize\<close>,
  \<^verbatim>\<open>loss_scale\<close>, the column range and the log-likelihood returned. \<open>Backward\<close> is
  \<^verbatim>\<open>loss.backward()\<close> on the given loss.
\<close>

datatype 'f event =
    ZeroGrad
  | Shuffled "nat list"
  | ForwardTrain "nat list" "(int \<times> int) list" 'f
  | Backward 'f
  | SqrtnForwardBackward nat int int 'f "int \<times> int" 'f
  | ClipGradNorm 'f
  | OptimizerStep
  | SetDescription nat nat 'f
  | SaveCheckpoint nat

text \<open>
  The collaborators are parameters. What each returns may depend on everything that happened
  before (the parameters of the model change, the random generator advances), so each takes
  the calls made so far. The floating point operations of the loop are parameters too:
  \<open>fl_zero\<close> is \<^verbatim>\<open>0.0\<close>, \<open>fl_div_int x n\<close> is \<^verbatim>\<open>x / n\<close> for an integer \<open>n\<close>,
  \<open>fl_recip n\<close> is \<^verbatim>\<open>1.0 / n\<close> for \<open>n \<noteq> 0\<close>, \<open>fl_pos x\<close> is \<^verbatim>\<open>x > 0\<close>.
\<close>

record 'f env =
  random_shuffle :: "'f event list \<Rightarrow> nat list \<Rightarrow> nat list"
  forward_train :: "'f event list \<Rightarrow> nat list \<Rightarrow> (int \<times> int) list \<Rightarrow> 'f"
  sqrtn_forward_backward :: "'f event list \<Rightarrow> nat \<Rightarrow> int \<Rightarrow> int \<Rightarrow> 'f \<Rightarrow> int \<times> int \<Rightarrow> 'f"
  fl_zero :: 'f
  fl_add :: "'f \<Rightarrow> 'f \<Rightarrow> 'f"
  fl_neg :: "'f \<Rightarrow> 'f"
  fl_div_int :: "'f \<Rightarrow> nat \<Rightarrow> 'f"
  fl_recip :: "nat \<Rightarrow> 'f"
  fl_pos :: "'f \<Rightarrow> bool"

text \<open>\<^verbatim>\<open>xs[i]\<close> for \<open>i \<ge> 0\<close>, and \<^verbatim>\<open>[xs[i] for i in idxs]\<close>.\<close>

definition py_index :: "'a list \<Rightarrow> nat \<Rightarrow> error + 'a" where
  "py_index xs i = (if i < length xs then Inr (xs ! i) else Inl IndexError)"

fun py_gather :: "'a list \<Rightarrow> nat list \<Rightarrow> error + 'a list" where
  "py_gather xs [] = Inr []"
| "py_gather xs (i # idxs) =
     (case py_index xs i of
        Inl e \<Rightarrow> Inl e
      | Inr x \<Rightarrow> (case py_gather xs idxs of Inl e \<Rightarrow> Inl e | Inr ys \<Rightarrow> Inr (x # ys)))"

text \<open>\<^verbatim>\<open>xs[:k]\<close>: a negative \<open>k\<close> counts from the end.\<close>

definition py_slice_to :: "'a list \<Rightarrow> int \<Rightarrow> 'a list" where
  "py_slice_to xs k = (if 0 \<le> k then take (nat k) xs else take (nat (int (length xs) + k)) xs)"

text \<open>
  Lines 155 to 160: the loop over the batch in the chunked branch, with the accumulator
  \<^verbatim>\<open>ll\<close>. The arguments of the call are evaluated in the order written, so
  \<^verbatim>\<open>stats[i][0]\<close> comes before \<^verbatim>\<open>1.0/n\<close>. Every function of the loop takes the calls made
  so far and returns them extended, also when it raises.
\<close>

fun chunked_loop ::
  "'f env \<Rightarrow> 'f cmd_args \<Rightarrow> graph list \<Rightarrow> stat list \<Rightarrow> 'f event list \<Rightarrow> nat list \<Rightarrow> 'f \<Rightarrow>
   'f event list \<times> (error + 'f)" where
  "chunked_loop env args train_graphs stats tr [] ll = (tr, Inr ll)"
| "chunked_loop env args train_graphs stats tr (i # rest) ll =
     (case py_index train_graphs i of
        Inl e \<Rightarrow> (tr, Inl e)
      | Inr g \<Rightarrow>
          (let n = len_graph g in
           case py_index stats i of
             Inl e \<Rightarrow> (tr, Inl e)
           | Inr st \<Rightarrow>
               if n = 0 then (tr, Inl ZeroDivisionError)
               else
                 (let loss_scale = fl_recip env n;
                      cur_ll = sqrtn_forward_backward env tr i (fst st) (blksize args)
                                 loss_scale (0, snd st)
                  in chunked_loop env args train_graphs stats
                       (tr @ [SqrtnForwardBackward i (fst st) (blksize args) loss_scale
                                (0, snd st) cur_ll])
                       rest (fl_add env ll cur_ll))))"

text \<open>
  Lines 148 to 161 for one batch: the loss of the step, or the exception. In the chunked
  branch \<^verbatim>\<open>ll\<close> is a plain number, so dividing it by a zero \<^verbatim>\<open>num_nodes\<close> would raise;
  in the whole-batch branch it is a tensor, and the division does not raise.
\<close>

definition compute_loss ::
  "'f env \<Rightarrow> 'f cmd_args \<Rightarrow> graph list \<Rightarrow> stat list \<Rightarrow> 'f event list \<Rightarrow> nat list \<Rightarrow>
   'f event list \<times> (error + 'f)" where
  "compute_loss env args train_graphs stats tr batch_indices =
     (case py_gather train_graphs batch_indices of
        Inl e \<Rightarrow> (tr, Inl e)
      | Inr gs \<Rightarrow>
          (let num_nodes = sum_list (map len_graph gs) in
           if blksize args < 0 \<or> int num_nodes \<le> blksize args then
             (case py_gather stats batch_indices of
                Inl e \<Rightarrow> (tr, Inl e)
              | Inr sts \<Rightarrow>
                  (let list_col_ranges = map (\<lambda>st. (0, snd st)) sts;
                       ll = forward_train env tr batch_indices list_col_ranges;
                       loss = fl_div_int env (fl_neg env ll) num_nodes
                   in (tr @ [ForwardTrain batch_indices list_col_ranges ll, Backward loss],
                       Inr loss)))
           else
             (case chunked_loop env args train_graphs stats tr batch_indices (fl_zero env) of
                (tr', Inl e) \<Rightarrow> (tr', Inl e)
              | (tr', Inr ll) \<Rightarrow>
                  if num_nodes = 0 then (tr', Inl ZeroDivisionError)
                  else (tr', Inr (fl_div_int env (fl_neg env ll) num_nodes)))))"

text \<open>Lines 169 to 173. Python's \<^verbatim>\<open>%\<close> raises on a zero modulus.\<close>

definition maybe_step ::
  "'f env \<Rightarrow> 'f cmd_args \<Rightarrow> nat \<Rightarrow> 'f event list \<Rightarrow> 'f event list \<times> error option" where
  "maybe_step env args idx tr =
     (if accum_grad args = 0 then (tr, Some ZeroDivisionError)
      else if (int idx + 1) mod accum_grad args = 0 then
        ((if fl_pos env (grad_clip args) then tr @ [ClipGradNorm (grad_clip args)] else tr)
           @ [OptimizerStep, ZeroGrad], None)
      else (tr, None))"

text \<open>
  The state of the loop: the pool \<^verbatim>\<open>indices\<close>, which \<^verbatim>\<open>random.shuffle\<close> permutes in place
  and which is never reset, and the calls made so far.
\<close>

record 'f tstate =
  indices :: "nat list"
  trace :: "'f event list"

text \<open>One iteration of the inner loop, lines 145 to 174.\<close>

definition train_step ::
  "'f env \<Rightarrow> 'f cmd_args \<Rightarrow> graph list \<Rightarrow> stat list \<Rightarrow> nat \<Rightarrow> nat \<Rightarrow> 'f tstate \<Rightarrow>
   'f tstate \<times> error option" where
  "train_step env args train_graphs stats epoch idx s =
     (let shuffled = random_shuffle env (trace s) (indices s);
          batch_indices = py_slice_to shuffled (batch_size args)
      in case compute_loss env args train_graphs stats (trace s @ [Shuffled shuffled])
                batch_indices of
           (tr1, Inl e) \<Rightarrow> (\<lparr> indices = shuffled, trace = tr1 \<rparr>, Some e)
         | (tr1, Inr loss) \<Rightarrow>
             (case maybe_step env args idx tr1 of
                (tr2, Some e) \<Rightarrow> (\<lparr> indices = shuffled, trace = tr2 \<rparr>, Some e)
              | (tr2, None) \<Rightarrow>
                  (\<lparr> indices = shuffled, trace = tr2 @ [SetDescription epoch idx loss] \<rparr>,
                   None)))"

text \<open>The inner loop \<^verbatim>\<open>for idx in pbar\<close>; an exception ends the run.\<close>

fun run_steps ::
  "'f env \<Rightarrow> 'f cmd_args \<Rightarrow> graph list \<Rightarrow> stat list \<Rightarrow> nat \<Rightarrow> nat list \<Rightarrow> 'f tstate \<Rightarrow>
   'f tstate \<times> error option" where
  "run_steps env args train_graphs stats epoch [] s = (s, None)"
| "run_steps env args train_graphs stats epoch (idx # rest) s =
     (case train_step env args train_graphs stats epoch idx s of
        (s', Some e) \<Rightarrow> (s', Some e)
      | (s', None) \<Rightarrow> run_steps env args train_graphs stats epoch rest s')"

text \<open>One epoch, lines 141 to 177, and the loop over the epochs.\<close>

definition train_epoch ::
  "'f env \<Rightarrow> 'f cmd_args \<Rightarrow> graph list \<Rightarrow> stat list \<Rightarrow> nat \<Rightarrow> 'f tstate \<Rightarrow>
   'f tstate \<times> error option" where
  "train_epoch env args train_graphs stats epoch s =
     (case run_steps env args train_graphs stats epoch [0 ..< nat (epoch_save args)]
             (s\<lparr> trace := trace s @ [ZeroGrad] \<rparr>) of
        (s', Some e) \<Rightarrow> (s', Some e)
      | (s', None) \<Rightarrow> (s'\<lparr> trace := trace s' @ [SaveCheckpoint epoch] \<rparr>, None))"

fun run_epochs ::
  "'f env \<Rightarrow> 'f cmd_args \<Rightarrow> graph list \<Rightarrow> stat list \<Rightarrow> nat list \<Rightarrow> 'f tstate \<Rightarrow>
   'f tstate \<times> error option" where
  "run_epochs env args train_graphs stats [] s = (s, None)"
| "run_epochs env args train_graphs stats (epoch # rest) s =
     (case train_epoch env args train_graphs stats epoch s of
        (s', Some e) \<Rightarrow> (s', Some e)
      | (s', None) \<Rightarrow> run_epochs env args train_graphs stats rest s')"

definition train ::
  "'f env \<Rightarrow> 'f cmd_args \<Rightarrow> graph list \<Rightarrow> stat list \<Rightarrow> 'f tstate \<times> error option" where
  "train env args train_graphs stats =
     run_epochs env args train_graphs stats [0 ..< nat (num_epochs args)]
       \<lparr> indices = [0 ..< length train_graphs], trace = [] \<rparr>"

text \<open>The calls of one step: what \<open>train_step\<close> adds to the calls made before it.\<close>

definition step_events ::
  "'f env \<Rightarrow> 'f cmd_args \<Rightarrow> graph list \<Rightarrow> stat list \<Rightarrow> nat \<Rightarrow> nat \<Rightarrow> 'f tstate \<Rightarrow> 'f event list" where
  "step_events env args train_graphs stats epoch idx s =
     drop (length (trace s)) (trace (fst (train_step env args train_graphs stats epoch idx s)))"

text \<open>The calls on the optimizer and on the gradients that the update of line 169 makes.\<close>

fun is_update :: "'f event \<Rightarrow> bool" where
  "is_update ZeroGrad = True"
| "is_update OptimizerStep = True"
| "is_update (ClipGradNorm c) = True"
| "is_update _ = False"

section \<open>What the claims about the training loop speak of\<close>

text \<open>
  The update of line 169 in the words of the spec: clip the gradients if a positive clip
  norm is configured, step the optimizer, then reset the gradients.
\<close>

definition update_calls :: "'f env \<Rightarrow> 'f cmd_args \<Rightarrow> 'f event list" where
  "update_calls env args =
     (if fl_pos env (grad_clip args) then [ClipGradNorm (grad_clip args)] else [])
     @ [OptimizerStep, ZeroGrad]"

text \<open>
  The calls that computing the loss of the batch \<open>b\<close> may make: the whole-batch primitive on
  \<open>b\<close> with its backward pass, or the chunked engine on a graph of \<open>b\<close>.
\<close>

fun is_compute :: "nat list \<Rightarrow> 'f event \<Rightarrow> bool" where
  "is_compute b (ForwardTrain b' cols ll) = (b' = b)"
| "is_compute b (Backward loss) = True"
| "is_compute b (SqrtnForwardBackward i n blk scale col ll) = (i \<in> set b)"
| "is_compute b _ = False"


text \<open>The call of the chunked engine for the graph \<open>i\<close> that returned \<open>ll\<close>.\<close>

definition sqrtn_call ::
  "'f env \<Rightarrow> 'f cmd_args \<Rightarrow> graph list \<Rightarrow> stat list \<Rightarrow> nat \<Rightarrow> 'f \<Rightarrow> 'f event" where
  "sqrtn_call env args train_graphs stats i ll =
     SqrtnForwardBackward i (fst (stats ! i)) (blksize args)
       (fl_recip env (len_graph (train_graphs ! i))) (0, snd (stats ! i)) ll"

text \<open>
  The calls on the optimizer and on the gradients of an epoch that ran \<open>k\<close> of its steps:
  the reset of line 143 at the start of the epoch, then the update of each of these steps
  whose 1-based index is a multiple of \<^verbatim>\<open>accum_grad\<close>.
\<close>

definition epoch_updates :: "'f env \<Rightarrow> 'f cmd_args \<Rightarrow> nat \<Rightarrow> 'f event list" where
  "epoch_updates env args k =
     ZeroGrad # concat (map (\<lambda>idx. if accum_grad args dvd int idx + 1
                                    then update_calls env args else []) [0 ..< k])"


section \<open>Example inputs\<close>

text \<open>
  The graph of the scenario of the spec: two variables, so literal nodes 0 to 3, and one
  clause node 4 joined to the literals 0 and 3.
\<close>

definition scenario_graph :: graph where
  "scenario_graph =
     \<lparr> nodes = [0, 1, 2, 3, 4],
       neighbors = (\<lambda>n. if n = 4 then [0, 3] else if n = 0 \<or> n = 3 then [4] else []),
       edges = [(0, 4), (3, 4)],
       degree = (\<lambda>n. if n = 4 then 2 else if n = 0 \<or> n = 3 then 1 else 0) \<rparr>"

text \<open>One variable, a clause node 2 joined to a node with the negative identifier \<open>-1\<close>.\<close>

definition negative_graph :: graph where
  "negative_graph =
     \<lparr> nodes = [- 1, 2],
       neighbors = (\<lambda>n. if n = 2 then [- 1] else if n = - 1 then [2] else []),
       edges = [(- 1, 2)],
       degree = (\<lambda>n. if n = 2 \<or> n = - 1 then 1 else 0) \<rparr>"

text \<open>One variable, a clause node 2 joined to the literal 0 and to another clause node 3.\<close>

definition clause_clause_graph :: graph where
  "clause_clause_graph =
     \<lparr> nodes = [0, 2, 3],
       neighbors = (\<lambda>n. if n = 2 then [0, 3] else if n = 0 \<or> n = 3 then [2] else []),
       edges = [(0, 2), (2, 3)],
       degree = (\<lambda>n. if n = 2 then 2 else if n = 0 \<or> n = 3 then 1 else 0) \<rparr>"

text \<open>
  One variable, the clause node 2 holding both literals, and a clause node 3 with no
  neighbour.
\<close>

definition isolated_clause_graph :: graph where
  "isolated_clause_graph =
     \<lparr> nodes = [0, 1, 2, 3],
       neighbors = (\<lambda>n. if n = 2 then [0, 1] else if n = 0 \<or> n = 1 then [2] else []),
       edges = [(0, 2), (1, 2)],
       degree = (\<lambda>n. if n = 2 then 2 else if n = 0 \<or> n = 1 then 1 else 0) \<rparr>"

text \<open>The graph of the scenario with the neighbours of the clause node listed as 3, 0.\<close>

definition swapped_scenario_graph :: graph where
  "swapped_scenario_graph =
     \<lparr> nodes = [0, 1, 2, 3, 4],
       neighbors = (\<lambda>n. if n = 4 then [3, 0] else if n = 0 \<or> n = 3 then [4] else []),
       edges = [(3, 4), (0, 4)],
       degree = (\<lambda>n. if n = 4 then 2 else if n = 0 \<or> n = 3 then 1 else 0) \<rparr>"

text \<open>A graph with no node, and a graph of four isolated nodes.\<close>

definition empty_graph :: graph where
  "empty_graph = \<lparr> nodes = [], neighbors = (\<lambda>n. []), edges = [], degree = (\<lambda>n. 0) \<rparr>"

definition four_nodes :: graph where
  "four_nodes = \<lparr> nodes = [0, 1, 2, 3], neighbors = (\<lambda>n. []), edges = [], degree = (\<lambda>n. 0) \<rparr>"

text \<open>
  Collaborators for the examples, with rational numbers for the floating point values: the
  shuffle reverses the pool, the model returns minus the batch size, the chunked engine
  returns minus the loss scale.
\<close>

definition rat_env :: "rat env" where
  "rat_env =
     \<lparr> random_shuffle = (\<lambda>tr xs. rev xs),
       forward_train = (\<lambda>tr b cols. - of_nat (length b)),
       sqrtn_forward_backward = (\<lambda>tr i n blk scale col. - scale),
       fl_zero = 0, fl_add = (+), fl_neg = uminus,
       fl_div_int = (\<lambda>x n. x / of_nat n),
       fl_recip = (\<lambda>n. 1 / of_nat n),
       fl_pos = (\<lambda>x. 0 < x) \<rparr>"

text \<open>Arguments with the given batch size, block size and accumulation window.\<close>

definition args_of :: "int \<Rightarrow> int \<Rightarrow> int \<Rightarrow> rat cmd_args" where
  "args_of bs blk acc =
     \<lparr> batch_size = bs, blksize = blk, accum_grad = acc, grad_clip = 5,
       num_epochs = 1, epoch_save = 2 \<rparr>"

text \<open>Arguments for two epochs of one step each, with an accumulation window of two.\<close>

definition two_epoch_args :: "rat cmd_args" where
  "two_epoch_args =
     \<lparr> batch_size = 1, blksize = - 1, accum_grad = 2, grad_clip = 5,
       num_epochs = 2, epoch_save = 1 \<rparr>"

text \<open>
  Collaborators of the evaluation loop for the examples: the exact quotient for the true
  division, models that predict the two edges of the scenario (before the shift), the same
  with the first edge repeated, and no edge at all, and graph constructions that give the
  scenario graph and the empty graph.
\<close>

definition rat_div :: "nat \<Rightarrow> nat \<Rightarrow> rat" where
  "rat_div a b = of_nat a / of_nat b"

definition predict_scenario ::
  "int \<Rightarrow> int list \<Rightarrow> int list \<Rightarrow> int \<times> int \<Rightarrow> nat \<Rightarrow> (int \<times> int) list" where
  "predict_scenario n lb_list ub_list col_range num_nodes = [(0, 0), (3, 0)]"

definition predict_repeated ::
  "int \<Rightarrow> int list \<Rightarrow> int list \<Rightarrow> int \<times> int \<Rightarrow> nat \<Rightarrow> (int \<times> int) list" where
  "predict_repeated n lb_list ub_list col_range num_nodes = [(0, 0), (3, 0), (0, 0)]"

definition predict_nothing ::
  "int \<Rightarrow> int list \<Rightarrow> int list \<Rightarrow> int \<times> int \<Rightarrow> nat \<Rightarrow> (int \<times> int) list" where
  "predict_nothing n lb_list ub_list col_range num_nodes = []"

definition to_scenario_graph :: "(int \<times> int) list \<Rightarrow> graph" where
  "to_scenario_graph es = scenario_graph"

definition to_empty_graph :: "(int \<times> int) list \<Rightarrow> graph" where
  "to_empty_graph es = empty_graph"

section \<open>Proofs: load_graphs\<close>

lemma read_records_prefix:
  "read_records (map Loaded gs @ rest) = gs @ read_records rest"
  by (induction gs) simp_all

lemma insert_all_append: "insert_all ps reg = reg @ ps"
  by (induction ps reg rule: insert_all.induct) (simp_all add: InsertGraph_def)

lemma load_graphs_Loaded:
  "load_graphs graph_pkl (Loaded stats) reg =
     (if length (read_records graph_pkl) \<noteq> length stats then Inl AssertionError
      else Inr (read_records graph_pkl, stats, reg @ zip (read_records graph_pkl) stats))"
  by (simp add: load_graphs_def insert_all_append Let_def)

lemma load_graphs_Inr:
  assumes "load_graphs graph_pkl stats_pkl reg = Inr (graphs, stats, reg')"
  shows "graphs = read_records graph_pkl \<and> stats_pkl = Loaded stats \<and>
         length graphs = length stats \<and> reg' = reg @ zip graphs stats"
  using assms
  by (cases stats_pkl) (auto simp: load_graphs_def insert_all_append Let_def split: if_splits)

text \<open>
  C6. With a stats stream that decodes to the list \<open>stats\<close>, \<open>load_graphs\<close> fails with the
  assertion error exactly when the number of graph records read differs from the number
  of stats records. Whenever it returns, the two lists have the same length and the
  registry has grown by exactly one \<open>InsertGraph\<close> call per loaded graph, in load order,
  each with the stats of that graph.
\<close>

theorem load_graphs_count_check:
  "(load_graphs graph_pkl (Loaded stats) reg = Inl AssertionError
      \<longleftrightarrow> length (read_records graph_pkl) \<noteq> length stats) \<and>
   (length (read_records graph_pkl) = length stats \<longrightarrow>
      load_graphs graph_pkl (Loaded stats) reg
        = Inr (read_records graph_pkl, stats, reg @ zip (read_records graph_pkl) stats)) \<and>
   (\<forall>graphs stats' reg'.
      load_graphs graph_pkl stats_pkl reg = Inr (graphs, stats', reg') \<longrightarrow>
        length graphs = length stats' \<and> reg' = reg @ zip graphs stats' \<and>
        map fst (drop (length reg) reg') = graphs \<and>
        map snd (drop (length reg) reg') = stats')"
proof (intro conjI allI impI)
  show "load_graphs graph_pkl (Loaded stats) reg = Inl AssertionError
      \<longleftrightarrow> length (read_records graph_pkl) \<noteq> length stats"
    by (simp add: load_graphs_Loaded)
next
  assume "length (read_records graph_pkl) = length stats"
  then show "load_graphs graph_pkl (Loaded stats) reg
        = Inr (read_records graph_pkl, stats, reg @ zip (read_records graph_pkl) stats)"
    by (simp add: load_graphs_Loaded)
next
  fix graphs stats' reg'
  assume "load_graphs graph_pkl stats_pkl reg = Inr (graphs, stats', reg')"
  then have *: "length graphs = length stats'" "reg' = reg @ zip graphs stats'"
    using load_graphs_Inr by blast+
  show "length graphs = length stats'" by (rule *)
  show "reg' = reg @ zip graphs stats'" by (rule *)
  show "map fst (drop (length reg) reg') = graphs" using * by simp
  show "map snd (drop (length reg) reg') = stats'" using * by simp
qed

theorem load_graphs_count_check_witness:
  "load_graphs [Loaded scenario_graph, Loaded four_nodes] (Loaded [(4, 1), (4, 0)]) []
     = Inr ([scenario_graph, four_nodes], [(4, 1), (4, 0)],
            [(scenario_graph, (4, 1)), (four_nodes, (4, 0))]) \<and>
   load_graphs [Loaded scenario_graph] (Loaded [(4, 1), (4, 0)]) [] = Inl AssertionError"
  using load_graphs_count_check
          [of "[Loaded scenario_graph, Loaded four_nodes]" "[(4, 1), (4, 0)]" "[]"]
        load_graphs_count_check [of "[Loaded scenario_graph]" "[(4, 1), (4, 0)]" "[]"]
  by simp

text \<open>
  C10. A record read that raises, whatever the exception and whatever follows it in the
  stream, ends the reading exactly as the end of the stream does. The graphs kept are the
  records decoded before it, and \<open>load_graphs\<close> goes on with them: with a stats list of
  the same length it returns these graphs, the stats and the registry extended by one entry
  for each of them; with a stats list of another length the assertion fails; with a stats
  stream that raises, that exception is the outcome. The exception of the record read is
  not part of any outcome.
\<close>

theorem read_failure_is_end_of_stream:
  "read_records (map Loaded gs @ Raised e # rest) = gs \<and>
   read_records (map Loaded gs) = gs \<and>
   load_graphs (map Loaded gs @ Raised e # rest) (Loaded stats) reg
     = (if length gs \<noteq> length stats then Inl AssertionError
        else Inr (gs, stats, reg @ zip gs stats)) \<and>
   load_graphs (map Loaded gs @ Raised e # rest) (Raised e') reg = Inl e' \<and>
   load_graphs (map Loaded gs @ Raised e # rest) stats_pkl reg
     = load_graphs (map Loaded gs) stats_pkl reg"
proof -
  have r: "read_records (map Loaded gs @ Raised e # rest) = gs"
    using read_records_prefix [of gs "Raised e # rest"] by simp
  have r': "read_records (map Loaded gs) = gs"
    using read_records_prefix [of gs "[]"] by simp
  have a: "load_graphs (map Loaded gs @ Raised e # rest) (Loaded stats) reg
     = (if length gs \<noteq> length stats then Inl AssertionError
        else Inr (gs, stats, reg @ zip gs stats))"
    unfolding load_graphs_Loaded r by (rule refl)
  have b: "load_graphs (map Loaded gs @ Raised e # rest) (Raised e') reg = Inl e'"
    by (simp add: load_graphs_def)
  have c: "load_graphs (map Loaded gs @ Raised e # rest) stats_pkl reg
     = load_graphs (map Loaded gs) stats_pkl reg"
    unfolding load_graphs_def r r' by (rule refl)
  show ?thesis by (intro conjI r r' a b c)
qed

theorem read_failure_is_end_of_stream_witness:
  "load_graphs [Loaded scenario_graph, Raised UnpicklingError, Loaded four_nodes]
     (Loaded [(4, 1)]) []
     = Inr ([scenario_graph], [(4, 1)], [(scenario_graph, (4, 1))]) \<and>
   load_graphs [Loaded scenario_graph, Raised UnpicklingError, Loaded four_nodes]
     (Loaded [(4, 1), (4, 0)]) []
     = Inl AssertionError"
  using read_failure_is_end_of_stream
          [of "[scenario_graph]" UnpicklingError "[Loaded four_nodes]" "[(4, 1)]" "[]",
           THEN conjunct2, THEN conjunct2, THEN conjunct1]
        read_failure_is_end_of_stream
          [of "[scenario_graph]" UnpicklingError "[Loaded four_nodes]" "[(4, 1), (4, 0)]" "[]",
           THEN conjunct2, THEN conjunct2, THEN conjunct1]
  by simp

section \<open>Proofs: get_ordered_edges\<close>

lemma canon_min_max:
  "(let e' = (if fst e > snd e then (snd e, fst e) else e) in (fst e', snd e' - offset))
     = (min (fst e) (snd e), max (fst e) (snd e) - offset)" for e :: "int \<times> int"
  by (auto simp: Let_def min_def max_def)

text \<open>
  C3. The result holds one pair per edge of the graph, the edge \<open>(a, b)\<close> giving
  \<open>(min a b, max a b - offset)\<close>, and is sorted in ascending order of the first coordinate.
\<close>

theorem get_ordered_edges_correct:
  "mset (get_ordered_edges g offset)
     = image_mset (\<lambda>(a, b). (min a b, max a b - offset)) (mset (edges g)) \<and>
   length (get_ordered_edges g offset) = length (edges g) \<and>
   sorted (map fst (get_ordered_edges g offset))"
  unfolding get_ordered_edges_def canon_min_max
  by (simp add: case_prod_unfold)

section \<open>Proofs: LCG_to_sat\<close>

lemma clause_lits_eq:
  "clause_lits nv lits acc =
     (if \<forall>lit\<in>set lits. lit < nv \<or> lit < 2 * nv
      then Inr (acc @ concat (map (lit_token nv) lits)) else Inl AssertionError)"
  by (induction lits arbitrary: acc) (auto simp: lit_token_def)

lemma build_clauses_eq:
  "build_clauses g nv ns acc =
     (if passes_assert g nv ns
      then Inr (acc @ map (\<lambda>n. clause_line nv (neighbors g n)) (filter (emitting g nv) ns))
      else Inl AssertionError)"
proof (induction ns arbitrary: acc)
  case Nil
  show ?case by (simp add: passes_assert_def)
next
  case (Cons n ns)
  show ?case
  proof (cases "nv * 2 \<le> n \<and> neighbors g n \<noteq> []")
    case False
    then have "build_clauses g nv (n # ns) acc = build_clauses g nv ns acc"
      by auto
    moreover from False have "passes_assert g nv (n # ns) = passes_assert g nv ns"
      by (auto simp: passes_assert_def)
    moreover from False have "filter (emitting g nv) (n # ns) = filter (emitting g nv) ns"
      by (auto simp: emitting_def)
    ultimately show ?thesis using Cons.IH[of acc] by simp
  next
    case True
    then have em: "filter (emitting g nv) (n # ns) = n # filter (emitting g nv) ns"
      by (simp add: emitting_def)
    show ?thesis
    proof (cases "\<forall>lit\<in>set (neighbors g n). lit < nv \<or> lit < 2 * nv")
      case ok: True
      with True have "build_clauses g nv (n # ns) acc
          = build_clauses g nv ns (acc @ [clause_line nv (neighbors g n)])"
        by (simp add: clause_lits_eq clause_line_def)
      moreover from ok have "passes_assert g nv (n # ns) = passes_assert g nv ns"
        by (simp add: passes_assert_def)
      ultimately show ?thesis using Cons.IH[of "acc @ [clause_line nv (neighbors g n)]"] em
        by simp
    next
      case bad: False
      with True have "build_clauses g nv (n # ns) acc = Inl AssertionError"
        by (auto simp: clause_lits_eq)
      moreover from bad True have "\<not> passes_assert g nv (n # ns)"
        by (auto simp: passes_assert_def)
      ultimately show ?thesis by simp
    qed
  qed
qed

lemma LCG_to_sat_eq:
  "LCG_to_sat g nv =
     (if passes_assert g nv (nodes g)
      then Inr (''c generated by G2SAT lcg\<newline>''
                @ (''p cnf '' @ str_int nv @ '' ''
                   @ str_int (int (length (filter (emitting g nv) (nodes g)))) @ ''\<newline>'')
                @ concat (map (\<lambda>n. clause_line nv (neighbors g n))
                              (filter (emitting g nv) (nodes g))))
      else Inl AssertionError)"
  by (simp add: LCG_to_sat_def build_clauses_eq)

lemma str_nat_digits: "set (str_nat n) \<subseteq> set ''0123456789''"
proof (induction n rule: str_nat.induct)
  case (1 n)
  have d: "k < 10 \<Longrightarrow> ''0123456789'' ! k \<in> set ''0123456789''" for k
    by (rule nth_mem) simp
  show ?case
  proof (cases "n < 10")
    case True
    then show ?thesis using d[of n] by (subst str_nat.simps) simp
  next
    case False
    then show ?thesis using 1 d[of "n mod 10"] by (subst str_nat.simps) simp
  qed
qed

lemma newline_notin_str_int: "CHR ''\<newline>'' \<notin> set (str_int i)"
  using str_nat_digits[of "nat i"] str_nat_digits[of "nat (- i)"]
  by (auto simp: str_int_def)

lemma count_newline_lit_token: "count_list (lit_token nv lit) CHR ''\<newline>'' = 0"
  using newline_notin_str_int by (simp add: lit_token_def)

lemma count_list_concat: "count_list (concat xss) c = sum_list (map (\<lambda>xs. count_list xs c) xss)"
  by (induction xss) simp_all

lemma count_newline_clause_line: "count_list (clause_line nv lits) CHR ''\<newline>'' = 1"
  by (simp add: clause_line_def count_list_concat count_newline_lit_token)

lemma count_newline_body:
  "count_list (concat (map (\<lambda>n. clause_line nv (f n)) ns)) CHR ''\<newline>'' = length ns"
  by (induction ns) (simp_all add: count_newline_clause_line)

text \<open>
  C2, amended. With two variables, exactly one clause node among the nodes, and the graph
  listing the neighbours of that node as the literal node 0 followed by the literal node 3,
  the file written is the comment line, the header \<open>p cnf 2 1\<close> and the single clause line
  \<open>1 -2 0\<close>: the literals of a clause are written in the order in which the graph lists
  the neighbours.
\<close>

theorem LCG_to_sat_scenario:
  assumes "filter (\<lambda>n. 4 \<le> n) (nodes g) = [c]" and "neighbors g c = [0, 3]"
  shows "LCG_to_sat g 2
           = Inr (''c generated by G2SAT lcg\<newline>'' @ ''p cnf 2 1\<newline>'' @ ''1 -2 0\<newline>'')"
proof -
  have "set (filter (\<lambda>n. 4 \<le> n) (nodes g)) = {c}"
    using assms(1) by simp
  then have mem: "n \<in> set (nodes g) \<Longrightarrow> 4 \<le> n \<Longrightarrow> n = c" for n
    by auto
  have wf: "passes_assert g 2 (nodes g)"
    unfolding passes_assert_def using mem assms(2) by auto
  have "filter (emitting g 2) (nodes g)
          = filter (\<lambda>n. 4 \<le> n \<and> neighbors g n \<noteq> []) (nodes g)"
    by (rule filter_cong) (auto simp: emitting_def)
  also have "\<dots> = filter (\<lambda>n. neighbors g n \<noteq> []) (filter (\<lambda>n. 4 \<le> n) (nodes g))"
    by simp
  finally have em: "filter (emitting g 2) (nodes g) = [c]"
    using assms by simp
  show ?thesis
    by (simp add: LCG_to_sat_eq wf em assms(2) clause_line_def lit_token_def str_int_def
          str_nat.simps)
qed

theorem LCG_to_sat_scenario_witness:
  "filter (\<lambda>n. 4 \<le> n) (nodes scenario_graph) = [4] \<and>
   neighbors scenario_graph 4 = [0, 3] \<and>
   LCG_to_sat scenario_graph 2
     = Inr ''c generated by G2SAT lcg\<newline>p cnf 2 1\<newline>1 -2 0\<newline>''"
proof -
  have h1: "filter (\<lambda>n. 4 \<le> n) (nodes scenario_graph) = [4]"
    by (simp add: scenario_graph_def)
  have h2: "neighbors scenario_graph 4 = [0, 3]"
    by (simp add: scenario_graph_def)
  show ?thesis
    using h1 h2 LCG_to_sat_scenario [OF h1 h2] by simp
qed

text \<open>
  C2, as the code has it. The clause node 4 of this graph has the literal nodes 0 and 3 as
  its neighbours, listed as 3, 0; the clause line written is \<open>-2 1 0\<close>.
\<close>

theorem LCG_to_sat_neighbour_order:
  "nodes swapped_scenario_graph = [0, 1, 2, 3, 4] \<and>
   neighbors swapped_scenario_graph 4 = [3, 0] \<and>
   set (neighbors swapped_scenario_graph 4) = {0, 3} \<and>
   LCG_to_sat swapped_scenario_graph 2
     = Inr ''c generated by G2SAT lcg\<newline>p cnf 2 1\<newline>-2 1 0\<newline>''"
  by (simp add: LCG_to_sat_def swapped_scenario_graph_def str_int_def str_nat.simps
        insert_commute)

text \<open>
  C4. Whenever the encoding succeeds, the text is the comment line, the header with the
  number of emitting nodes (the clause nodes with at least one neighbour), and one clause
  line for each emitting node, in node order; the body holds exactly that many newline
  characters. A clause node without neighbours emits nothing: dropping all such nodes from
  the node list changes neither the outcome nor the text.
\<close>

theorem LCG_to_sat_clause_count:
  "(\<forall>out. LCG_to_sat g num_var = Inr out \<longrightarrow>
      out = ''c generated by G2SAT lcg\<newline>''
             @ (''p cnf '' @ str_int num_var @ '' ''
                @ str_int (int (length (filter (emitting g num_var) (nodes g)))) @ ''\<newline>'')
             @ concat (map (\<lambda>n. clause_line num_var (neighbors g n))
                           (filter (emitting g num_var) (nodes g)))) \<and>
   count_list (concat (map (\<lambda>n. clause_line num_var (neighbors g n))
                           (filter (emitting g num_var) (nodes g)))) CHR ''\<newline>''
     = length (filter (emitting g num_var) (nodes g)) \<and>
   (\<forall>n. num_var * 2 \<le> n \<and> neighbors g n = [] \<longrightarrow> \<not> emitting g num_var n) \<and>
   LCG_to_sat (g\<lparr> nodes := filter (\<lambda>n. \<not> (num_var * 2 \<le> n \<and> neighbors g n = [])) (nodes g) \<rparr>)
       num_var
     = LCG_to_sat g num_var"
proof (intro conjI allI impI)
  fix out assume "LCG_to_sat g num_var = Inr out"
  then show "out = ''c generated by G2SAT lcg\<newline>''
             @ (''p cnf '' @ str_int num_var @ '' ''
                @ str_int (int (length (filter (emitting g num_var) (nodes g)))) @ ''\<newline>'')
             @ concat (map (\<lambda>n. clause_line num_var (neighbors g n))
                           (filter (emitting g num_var) (nodes g)))"
    by (simp add: LCG_to_sat_eq split: if_splits)
next
  show "count_list (concat (map (\<lambda>n. clause_line num_var (neighbors g n))
                           (filter (emitting g num_var) (nodes g)))) CHR ''\<newline>''
     = length (filter (emitting g num_var) (nodes g))"
    by (rule count_newline_body)
next
  fix n assume "num_var * 2 \<le> n \<and> neighbors g n = []"
  then show "\<not> emitting g num_var n" by (simp add: emitting_def)
next
  let ?keep = "\<lambda>n. \<not> (num_var * 2 \<le> n \<and> neighbors g n = [])"
  let ?g = "g\<lparr> nodes := filter ?keep (nodes g) \<rparr>"
  have nb: "neighbors ?g = neighbors g" by simp
  have em: "emitting ?g num_var = emitting g num_var"
    by (rule ext) (simp add: emitting_def)
  have pa: "passes_assert ?g num_var (filter ?keep (nodes g)) = passes_assert g num_var (nodes g)"
    by (auto simp: passes_assert_def)
  have fl: "filter (emitting g num_var) (filter ?keep (nodes g))
              = filter (emitting g num_var) (nodes g)"
    unfolding filter_filter by (rule filter_cong) (auto simp: emitting_def)
  have n: "nodes ?g = filter ?keep (nodes g)" by simp
  show "LCG_to_sat ?g num_var = LCG_to_sat g num_var"
    by (simp only: LCG_to_sat_eq n nb em pa fl)
qed

theorem LCG_to_sat_clause_count_witness:
  "LCG_to_sat isolated_clause_graph 1
     = Inr ''c generated by G2SAT lcg\<newline>p cnf 1 1\<newline>1 -1 0\<newline>'' \<and>
   filter (emitting isolated_clause_graph 1) (nodes isolated_clause_graph) = [2] \<and>
   \<not> emitting isolated_clause_graph 1 3"
proof -
  have r: "LCG_to_sat isolated_clause_graph 1
     = Inr ''c generated by G2SAT lcg\<newline>p cnf 1 1\<newline>1 -1 0\<newline>''"
    by (simp add: LCG_to_sat_def isolated_clause_graph_def str_int_def str_nat.simps)
  have e: "filter (emitting isolated_clause_graph 1) (nodes isolated_clause_graph) = [2]"
    by (simp add: emitting_def isolated_clause_graph_def)
  have n: "1 * 2 \<le> (3::int) \<and> neighbors isolated_clause_graph 3 = []"
    by (simp add: isolated_clause_graph_def)
  show ?thesis
    using r e n LCG_to_sat_clause_count [of isolated_clause_graph 1] by blast
qed


text \<open>
  C5, as the code has it. The node \<open>-1\<close> is outside \<open>[0, 2)\<close> and is a neighbour of the
  clause node 2, yet the encoding succeeds and writes it as the literal \<open>0\<close>: line 66
  sends every index below \<open>num_var\<close> to the positive branch, and only the upper bound is
  asserted.
\<close>

theorem negative_literal_not_rejected:
  "(- 1 :: int) \<notin> {0 ..< 2 * 1} \<and>
   2 \<in> set (nodes negative_graph) \<and> (1::int) * 2 \<le> 2 \<and>
   - 1 \<in> set (neighbors negative_graph 2) \<and>
   LCG_to_sat negative_graph 1 = Inr ''c generated by G2SAT lcg\<newline>p cnf 1 1\<newline>0 0\<newline>''"
  by (simp add: LCG_to_sat_def negative_graph_def str_int_def str_nat.simps)

text \<open>
  C5, amended. For a non-negative number of variables the encoding fails, with the assertion
  error and without writing a file, exactly when some clause node of the graph has a
  neighbour with index at least \<open>2 * num_var\<close>. If every neighbour of every clause node is
  below \<open>2 * num_var\<close> (in particular if all lie in \<open>[0, 2 * num_var)\<close>) the encoding
  succeeds. No other failure exists.
\<close>

theorem LCG_to_sat_range_check:
  "(0 \<le> num_var \<longrightarrow>
      (LCG_to_sat g num_var = Inl AssertionError \<longleftrightarrow>
         (\<exists>n\<in>set (nodes g). num_var * 2 \<le> n \<and>
            (\<exists>lit\<in>set (neighbors g n). 2 * num_var \<le> lit)))) \<and>
   ((\<forall>n\<in>set (nodes g). num_var * 2 \<le> n \<longrightarrow>
        (\<forall>lit\<in>set (neighbors g n). lit < 2 * num_var)) \<longrightarrow>
      (\<exists>out. LCG_to_sat g num_var = Inr out)) \<and>
   (LCG_to_sat g num_var = Inl AssertionError \<or> (\<exists>out. LCG_to_sat g num_var = Inr out))"
proof (intro conjI impI)
  assume nn: "0 \<le> num_var"
  have "passes_assert g num_var (nodes g) \<longleftrightarrow>
          \<not> (\<exists>n\<in>set (nodes g). num_var * 2 \<le> n \<and>
                (\<exists>lit\<in>set (neighbors g n). 2 * num_var \<le> lit))"
    unfolding passes_assert_def using nn by fastforce
  then show "LCG_to_sat g num_var = Inl AssertionError \<longleftrightarrow>
         (\<exists>n\<in>set (nodes g). num_var * 2 \<le> n \<and>
            (\<exists>lit\<in>set (neighbors g n). 2 * num_var \<le> lit))"
    by (simp add: LCG_to_sat_eq)
next
  assume "\<forall>n\<in>set (nodes g). num_var * 2 \<le> n \<longrightarrow>
        (\<forall>lit\<in>set (neighbors g n). lit < 2 * num_var)"
  then have "passes_assert g num_var (nodes g)"
    by (simp add: passes_assert_def)
  then show "\<exists>out. LCG_to_sat g num_var = Inr out"
    by (simp add: LCG_to_sat_eq)
next
  show "LCG_to_sat g num_var = Inl AssertionError \<or> (\<exists>out. LCG_to_sat g num_var = Inr out)"
    by (simp add: LCG_to_sat_eq)
qed

theorem LCG_to_sat_range_check_witness:
  "(0::int) \<le> 1 \<and>
   2 \<in> set (nodes clause_clause_graph) \<and> (1::int) * 2 \<le> 2 \<and>
   3 \<in> set (neighbors clause_clause_graph 2) \<and> (2::int) * 1 \<le> 3 \<and>
   LCG_to_sat clause_clause_graph 1 = Inl AssertionError \<and>
   set (neighbors scenario_graph 4) = {0, 3} \<and>
   (\<exists>out. LCG_to_sat scenario_graph 2 = Inr out)"
proof -
  have h1: "\<exists>n\<in>set (nodes clause_clause_graph). 1 * 2 \<le> n \<and>
      (\<exists>lit\<in>set (neighbors clause_clause_graph n). 2 * 1 \<le> lit)"
    by (simp add: clause_clause_graph_def)
  have h2: "\<forall>n\<in>set (nodes scenario_graph). 2 * 2 \<le> n \<longrightarrow>
      (\<forall>lit\<in>set (neighbors scenario_graph n). lit < 2 * 2)"
    by (simp add: scenario_graph_def)
  have h3: "2 \<in> set (nodes clause_clause_graph) \<and> 3 \<in> set (neighbors clause_clause_graph 2)
            \<and> set (neighbors scenario_graph 4) = {0, 3}"
    by (simp add: clause_clause_graph_def scenario_graph_def)
  show ?thesis
    using h1 h2 h3 LCG_to_sat_range_check [of 1 clause_clause_graph]
      LCG_to_sat_range_check [of 2 scenario_graph]
    by simp
qed

section \<open>Proofs: the evaluation loop\<close>

lemma degree_list_of_eq:
  "degree_list_of g idxs =
     (if \<forall>i\<in>set idxs. i \<in> set (nodes g) then Inr (map (degree g) idxs)
      else Inl NetworkXError)"
  by (induction idxs) (auto simp: py_degree_def)

lemma predicted_edges_eq:
  "predicted_edges generate g stat =
     (if \<forall>i\<in>set [0 .. fst stat - 1]. i \<in> set (nodes g)
      then Inr (map (\<lambda>e. (fst e, snd e + fst stat))
                  (generate (fst stat) (map (degree g) [0 .. fst stat - 1])
                     (map (degree g) [0 .. fst stat - 1]) (0, snd stat) (len_graph g)))
      else Inl NetworkXError)"
  by (simp add: predicted_edges_def degree_list_of_eq)

lemma same_edges_same_count:
  assumes "distinct P" "distinct T" "set P = set T"
  shows "card (set P \<inter> set T) = length P" "card (set P \<inter> set T) = length T"
proof -
  from assms(3) have i: "set P \<inter> set T = set P" "set P \<inter> set T = set T"
    by auto
  show "card (set P \<inter> set T) = length P"
    unfolding i(1) by (rule distinct_card [OF assms(1)])
  show "card (set P \<inter> set T) = length T"
    unfolding i(2) by (rule distinct_card [OF assms(2)])
qed

text \<open>
  C8, amended. Let \<open>P\<close> be the list of the edges that the model generates from the degree
  bounds, each right-partition index shifted up by the left-partition size, and \<open>T\<close> the
  list \<open>get_ordered_edges g 0\<close>. When the nodes \<open>0, ..., stat[0] - 1\<close> are all nodes of the
  graph and both lists are non-empty, the runner reports the two lengths, precision as the
  true division of the size of the set intersection by the length of \<open>P\<close>, and recall as
  that of the same size by the length of \<open>T\<close>; the length of a duplicate-free \<open>P\<close> is the
  size of the predicted edge set. When moreover both lists are duplicate-free and hold the
  same edges, dividend and divisor agree in both ratios, so that both are \<open>1.0\<close> for a
  division with \<open>n / n = 1.0\<close>. When a node is missing the degree query raises, and when a
  list is empty the division raises: nothing is reported.
\<close>

theorem eval_graph_precision_recall:
  "let dl = map (degree g) [0 .. fst stat - 1];
       P = map (\<lambda>e. (fst e, snd e + fst stat))
             (generate (fst stat) dl dl (0, snd stat) (len_graph g));
       T = get_ordered_edges g 0;
       c = card (set P \<inter> set T)
   in ((\<forall>i\<in>set [0 .. fst stat - 1]. i \<in> set (nodes g)) \<and> P \<noteq> [] \<and> T \<noteq> [] \<longrightarrow>
         eval_graph true_div generate graph_of_edges g stat
           = Inr (\<lparr> n_pred = length P, n_true = length T,
                    precision = true_div c (length P), recall = true_div c (length T) \<rparr>,
                  LCG_to_sat (graph_of_edges P) (fst stat div 2)) \<and>
         (distinct P \<longrightarrow> length P = card (set P)) \<and>
         (distinct P \<and> distinct T \<and> set P = set T \<longrightarrow>
            c = length P \<and> c = length T \<and>
            ((\<forall>n. 0 < n \<longrightarrow> true_div n n = one) \<longrightarrow>
               true_div c (length P) = one \<and> true_div c (length T) = one))) \<and>
      (\<not> (\<forall>i\<in>set [0 .. fst stat - 1]. i \<in> set (nodes g)) \<longrightarrow>
         eval_graph true_div generate graph_of_edges g stat = Inl NetworkXError) \<and>
      ((\<forall>i\<in>set [0 .. fst stat - 1]. i \<in> set (nodes g)) \<and> (P = [] \<or> T = []) \<longrightarrow>
         eval_graph true_div generate graph_of_edges g stat = Inl ZeroDivisionError)"
proof -
  define dl where "dl = map (degree g) [0 .. fst stat - 1]"
  define P where "P = map (\<lambda>e. (fst e, snd e + fst stat))
             (generate (fst stat) dl dl (0, snd stat) (len_graph g))"
  define T where "T = get_ordered_edges g 0"
  define c where "c = card (set P \<inter> set T)"
  let ?ok = "\<forall>i\<in>set [0 .. fst stat - 1]. i \<in> set (nodes g)"
  have p: "predicted_edges generate g stat = (if ?ok then Inr P else Inl NetworkXError)"
    unfolding P_def dl_def by (rule predicted_edges_eq)
  have p_ok: "predicted_edges generate g stat = Inr P" if "?ok"
    unfolding p using that by (rule if_P)
  have p_bad: "predicted_edges generate g stat = Inl NetworkXError" if "\<not> ?ok"
    unfolding p using that by (rule if_not_P)
  have a: "eval_graph true_div generate graph_of_edges g stat
           = Inr (\<lparr> n_pred = length P, n_true = length T,
                    precision = true_div c (length P), recall = true_div c (length T) \<rparr>,
                  LCG_to_sat (graph_of_edges P) (fst stat div 2))"
    if "?ok" "P \<noteq> []" "T \<noteq> []"
    unfolding eval_graph_def p_ok [OF that(1)]
    using that(2,3) by (simp add: Let_def T_def c_def)
  have b: "length P = card (set P)" if "distinct P"
    using that by (simp add: distinct_card)
  have d: "c = length P \<and> c = length T \<and>
            ((\<forall>n. 0 < n \<longrightarrow> true_div n n = one) \<longrightarrow>
               true_div c (length P) = one \<and> true_div c (length T) = one)"
    if ne: "P \<noteq> []" and s: "distinct P \<and> distinct T \<and> set P = set T"
  proof (intro conjI impI)
    from s have dP: "distinct P" and dT: "distinct T" and st: "set P = set T"
      by simp_all
    show cP: "c = length P"
      unfolding c_def by (rule same_edges_same_count(1) [OF dP dT st])
    show cT: "c = length T"
      unfolding c_def by (rule same_edges_same_count(2) [OF dP dT st])
    assume one: "\<forall>n. 0 < n \<longrightarrow> true_div n n = one"
    from ne have "0 < length P" by simp
    from one [rule_format, OF this] have 1: "true_div (length P) (length P) = one" .
    have lT: "length T = length P" using cP cT by (simp only:)
    show "true_div c (length P) = one"
      using 1 by (simp only: cP)
    show "true_div c (length T) = one"
      using 1 by (simp only: cP lT)
  qed
  have e: "eval_graph true_div generate graph_of_edges g stat = Inl NetworkXError" if "\<not> ?ok"
    unfolding eval_graph_def p_bad [OF that] by simp
  have f: "eval_graph true_div generate graph_of_edges g stat = Inl ZeroDivisionError"
    if "?ok" "P = [] \<or> T = []"
    unfolding eval_graph_def p_ok [OF that(1)]
    using that(2) by (auto simp: Let_def T_def)
  have "((?ok \<and> P \<noteq> [] \<and> T \<noteq> [] \<longrightarrow>
         eval_graph true_div generate graph_of_edges g stat
           = Inr (\<lparr> n_pred = length P, n_true = length T,
                    precision = true_div c (length P), recall = true_div c (length T) \<rparr>,
                  LCG_to_sat (graph_of_edges P) (fst stat div 2)) \<and>
         (distinct P \<longrightarrow> length P = card (set P)) \<and>
         (distinct P \<and> distinct T \<and> set P = set T \<longrightarrow>
            c = length P \<and> c = length T \<and>
            ((\<forall>n. 0 < n \<longrightarrow> true_div n n = one) \<longrightarrow>
               true_div c (length P) = one \<and> true_div c (length T) = one))) \<and>
      (\<not> ?ok \<longrightarrow>
         eval_graph true_div generate graph_of_edges g stat = Inl NetworkXError) \<and>
      (?ok \<and> (P = [] \<or> T = []) \<longrightarrow>
         eval_graph true_div generate graph_of_edges g stat = Inl ZeroDivisionError))"
  proof (intro conjI)
    show "?ok \<and> P \<noteq> [] \<and> T \<noteq> [] \<longrightarrow>
         eval_graph true_div generate graph_of_edges g stat
           = Inr (\<lparr> n_pred = length P, n_true = length T,
                    precision = true_div c (length P), recall = true_div c (length T) \<rparr>,
                  LCG_to_sat (graph_of_edges P) (fst stat div 2)) \<and>
         (distinct P \<longrightarrow> length P = card (set P)) \<and>
         (distinct P \<and> distinct T \<and> set P = set T \<longrightarrow>
            c = length P \<and> c = length T \<and>
            ((\<forall>n. 0 < n \<longrightarrow> true_div n n = one) \<longrightarrow>
               true_div c (length P) = one \<and> true_div c (length T) = one))"
    proof
      assume h: "?ok \<and> P \<noteq> [] \<and> T \<noteq> []"
      then have ok: ?ok and nP: "P \<noteq> []" and nT: "T \<noteq> []" by simp_all
      show "eval_graph true_div generate graph_of_edges g stat
           = Inr (\<lparr> n_pred = length P, n_true = length T,
                    precision = true_div c (length P), recall = true_div c (length T) \<rparr>,
                  LCG_to_sat (graph_of_edges P) (fst stat div 2)) \<and>
         (distinct P \<longrightarrow> length P = card (set P)) \<and>
         (distinct P \<and> distinct T \<and> set P = set T \<longrightarrow>
            c = length P \<and> c = length T \<and>
            ((\<forall>n. 0 < n \<longrightarrow> true_div n n = one) \<longrightarrow>
               true_div c (length P) = one \<and> true_div c (length T) = one))"
      proof (intro conjI)
        show "eval_graph true_div generate graph_of_edges g stat
           = Inr (\<lparr> n_pred = length P, n_true = length T,
                    precision = true_div c (length P), recall = true_div c (length T) \<rparr>,
                  LCG_to_sat (graph_of_edges P) (fst stat div 2))"
          by (rule a [OF ok nP nT])
        show "distinct P \<longrightarrow> length P = card (set P)"
          by (rule impI) (rule b)
        show "distinct P \<and> distinct T \<and> set P = set T \<longrightarrow>
            c = length P \<and> c = length T \<and>
            ((\<forall>n. 0 < n \<longrightarrow> true_div n n = one) \<longrightarrow>
               true_div c (length P) = one \<and> true_div c (length T) = one)"
          by (rule impI) (rule d [OF nP])
      qed
    qed
    show "\<not> ?ok \<longrightarrow> eval_graph true_div generate graph_of_edges g stat = Inl NetworkXError"
      by (rule impI) (rule e)
    show "?ok \<and> (P = [] \<or> T = []) \<longrightarrow>
         eval_graph true_div generate graph_of_edges g stat = Inl ZeroDivisionError"
    proof
      assume "?ok \<and> (P = [] \<or> T = [])"
      then have "?ok" "P = [] \<or> T = []" by simp_all
      then show "eval_graph true_div generate graph_of_edges g stat = Inl ZeroDivisionError"
        by (rule f)
    qed
  qed
  then show ?thesis
    unfolding Let_def c_def T_def P_def dl_def .
qed

lemma scenario_true_edges: "get_ordered_edges scenario_graph 0 = [(0, 4), (3, 4)]"
  by (simp add: get_ordered_edges_def scenario_graph_def)

lemma scenario_nodes_present:
  "\<forall>i\<in>set [0 .. fst (4 :: int, 1 :: int) - 1]. i \<in> set (nodes scenario_graph)"
  by (auto simp: scenario_graph_def)

lemma scenario_shifted:
  "map (\<lambda>e. (fst e, snd e + fst (4 :: int, 1 :: int)))
     (predict_scenario (fst (4 :: int, 1 :: int)) dl dl (0, snd (4 :: int, 1 :: int)) k)
   = [(0, 4), (3, 4)]"
  "map (\<lambda>e. (fst e, snd e + fst (4 :: int, 1 :: int)))
     (predict_repeated (fst (4 :: int, 1 :: int)) dl dl (0, snd (4 :: int, 1 :: int)) k)
   = [(0, 4), (3, 4), (0, 4)]"
  by (simp_all add: predict_scenario_def predict_repeated_def)

lemma scenario_predicted:
  "predicted_edges predict_scenario scenario_graph (4, 1) = Inr [(0, 4), (3, 4)]"
  "predicted_edges predict_repeated scenario_graph (4, 1) = Inr [(0, 4), (3, 4), (0, 4)]"
  unfolding predicted_edges_eq scenario_shifted
  using scenario_nodes_present by (rule if_P)+


theorem eval_graph_precision_recall_witness:
  "eval_graph rat_div predict_scenario to_scenario_graph scenario_graph (4, 1)
     = Inr (\<lparr> n_pred = 2, n_true = 2, precision = 1, recall = 1 \<rparr>,
            LCG_to_sat scenario_graph 2)"
proof -
  note inst = eval_graph_precision_recall
    [of scenario_graph "(4, 1)" predict_scenario rat_div to_scenario_graph 1,
     unfolded Let_def scenario_shifted scenario_true_edges]
  have pre: "(\<forall>i\<in>set [0 .. fst (4 :: int, 1 :: int) - 1]. i \<in> set (nodes scenario_graph))
             \<and> [(0 :: int, 4 :: int), (3, 4)] \<noteq> [] \<and> [(0 :: int, 4 :: int), (3, 4)] \<noteq> []"
    by (intro conjI scenario_nodes_present) simp_all
  have same: "distinct [(0 :: int, 4 :: int), (3, 4)] \<and> distinct [(0 :: int, 4 :: int), (3, 4)]
              \<and> set [(0 :: int, 4 :: int), (3, 4)] = set [(0 :: int, 4 :: int), (3, 4)]"
    by simp
  have one: "\<forall>n. 0 < n \<longrightarrow> rat_div n n = 1"
    by (simp add: rat_div_def)
  note body = mp [OF inst [THEN conjunct1] pre]
  note ratios = mp [OF mp [OF body [THEN conjunct2, THEN conjunct2] same,
                           THEN conjunct2, THEN conjunct2] one]
  have "eval_graph rat_div predict_scenario to_scenario_graph scenario_graph (4, 1)
     = Inr (\<lparr> n_pred = 2, n_true = 2, precision = 1, recall = 1 \<rparr>,
            LCG_to_sat (to_scenario_graph [(0, 4), (3, 4)]) (fst (4 :: int, 1 :: int) div 2))"
    unfolding body [THEN conjunct1] ratios [THEN conjunct1] ratios [THEN conjunct2]
    by simp
  then show ?thesis
    by (simp add: to_scenario_graph_def)
qed


text \<open>
  C8, as the code has it. For a graph without edges and an empty prediction the two edge
  sets are identical, and the runner raises instead of reporting 1. For a prediction that
  lists an edge twice the two edge sets are identical too, and the precision reported is
  \<open>2/3\<close>: the divisor is the length of the list. For stats that name six left nodes on a
  graph that lacks node 5, the degree query raises before anything is generated.
\<close>

theorem eval_graph_undefined_ratio:
  "predicted_edges predict_nothing empty_graph (0, 0) = Inr [] \<and>
   get_ordered_edges empty_graph 0 = [] \<and>
   eval_graph rat_div predict_nothing to_empty_graph empty_graph (0, 0) = Inl ZeroDivisionError \<and>
   predicted_edges predict_repeated scenario_graph (4, 1) = Inr [(0, 4), (3, 4), (0, 4)] \<and>
   get_ordered_edges scenario_graph 0 = [(0, 4), (3, 4)] \<and>
   eval_graph rat_div predict_repeated to_scenario_graph scenario_graph (4, 1)
     = Inr (\<lparr> n_pred = 3, n_true = 2, precision = 2 / 3, recall = 1 \<rparr>,
            LCG_to_sat scenario_graph 2) \<and>
   5 \<notin> set (nodes scenario_graph) \<and>
   eval_graph rat_div predict_scenario to_scenario_graph scenario_graph (6, 1)
     = Inl NetworkXError"
proof -
  have p0: "predicted_edges predict_nothing empty_graph (0, 0) = Inr []"
    by (simp add: predicted_edges_def predict_nothing_def)
  have t0: "get_ordered_edges empty_graph 0 = []"
    by (simp add: get_ordered_edges_def empty_graph_def)
  have e0: "eval_graph rat_div predict_nothing to_empty_graph empty_graph (0, 0)
              = Inl ZeroDivisionError"
    unfolding eval_graph_def p0 by simp
  have c: "card (set [(0 :: int, 4 :: int), (3, 4), (0, 4)] \<inter> set [(0, 4), (3, 4)]) = 2"
    by (simp add: insert_commute)
  have e1: "eval_graph rat_div predict_repeated to_scenario_graph scenario_graph (4, 1)
     = Inr (\<lparr> n_pred = 3, n_true = 2, precision = 2 / 3, recall = 1 \<rparr>,
            LCG_to_sat scenario_graph 2)"
    unfolding eval_graph_def scenario_predicted scenario_true_edges Let_def c
    by (simp add: rat_div_def to_scenario_graph_def)
  have n5: "5 \<notin> set (nodes scenario_graph)"
    by (simp add: scenario_graph_def)
  have "5 \<in> set [0 .. fst (6 :: int, 1 :: int) - 1]"
    by simp
  with n5 have m: "\<not> (\<forall>i\<in>set [0 .. fst (6 :: int, 1 :: int) - 1]. i \<in> set (nodes scenario_graph))"
    by blast
  have p6: "predicted_edges predict_scenario scenario_graph (6, 1) = Inl NetworkXError"
    unfolding predicted_edges_eq using m by (rule if_not_P)
  have e6: "eval_graph rat_div predict_scenario to_scenario_graph scenario_graph (6, 1)
     = Inl NetworkXError"
    unfolding eval_graph_def p6 by simp
  show ?thesis
    by (intro conjI p0 t0 e0 scenario_predicted(2) scenario_true_edges e1 n5 e6)
qed

section \<open>Proofs: the loss of one batch\<close>



lemma chunked_loop_trace:
  "set rest \<subseteq> set b \<Longrightarrow>
   \<exists>evs. fst (chunked_loop env args tg st tr rest ll) = tr @ evs \<and>
     (\<forall>e\<in>set evs. \<exists>i r. i \<in> set b \<and> e = sqrtn_call env args tg st i r)"
proof (induction rest arbitrary: tr ll)
  case Nil
  show ?case by simp
next
  case (Cons i rest)
  show ?case
  proof (cases "i < length tg \<and> i < length st \<and> len_graph (tg ! i) \<noteq> 0")
    case False
    then have "fst (chunked_loop env args tg st tr (i # rest) ll) = tr"
      by (auto simp: py_index_def Let_def)
    then show ?thesis by simp
  next
    case True
    let ?r = "sqrtn_forward_backward env tr i (fst (st ! i)) (blksize args)
              (fl_recip env (len_graph (tg ! i))) (0, snd (st ! i))"
    from Cons.prems have sub: "set rest \<subseteq> set b" and ib: "i \<in> set b" by simp_all
    from Cons.IH[OF sub, of "tr @ [sqrtn_call env args tg st i ?r]" "fl_add env ll ?r"]
    obtain evs where evs:
      "fst (chunked_loop env args tg st (tr @ [sqrtn_call env args tg st i ?r]) rest
              (fl_add env ll ?r)) = (tr @ [sqrtn_call env args tg st i ?r]) @ evs"
      "\<forall>e\<in>set evs. \<exists>i r. i \<in> set b \<and> e = sqrtn_call env args tg st i r"
      by blast
    have "chunked_loop env args tg st tr (i # rest) ll
          = chunked_loop env args tg st (tr @ [sqrtn_call env args tg st i ?r]) rest
              (fl_add env ll ?r)"
      using True by (simp add: py_index_def Let_def sqrtn_call_def)
    with evs have "fst (chunked_loop env args tg st tr (i # rest) ll)
                     = tr @ (sqrtn_call env args tg st i ?r # evs)
                   \<and> (\<forall>e\<in>set (sqrtn_call env args tg st i ?r # evs).
                        \<exists>i r. i \<in> set b \<and> e = sqrtn_call env args tg st i r)"
      using ib by auto
    then show ?thesis by blast
  qed
qed

lemma compute_loss_trace:
  "\<exists>evs. fst (compute_loss env args tg st tr b) = tr @ evs \<and> list_all (is_compute b) evs"
proof (cases "py_gather tg b")
  case (Inl e)
  then show ?thesis by (simp add: compute_loss_def)
next
  case (Inr gs)
  show ?thesis
  proof (cases "blksize args < 0 \<or> int (sum_list (map len_graph gs)) \<le> blksize args")
    case True
    then show ?thesis using Inr
      by (cases "py_gather st b") (auto simp: compute_loss_def Let_def)
  next
    case False
    obtain evs where evs: "fst (chunked_loop env args tg st tr b (fl_zero env)) = tr @ evs"
      "\<forall>e\<in>set evs. \<exists>i r. i \<in> set b \<and> e = sqrtn_call env args tg st i r"
      using chunked_loop_trace[of b b env args tg st tr "fl_zero env"] by blast
    have "fst (compute_loss env args tg st tr b)
            = fst (chunked_loop env args tg st tr b (fl_zero env))"
      using Inr False
      by (auto simp: compute_loss_def Let_def split: prod.splits sum.splits)
    moreover from evs(2) have "list_all (is_compute b) evs"
      by (auto simp: list_all_iff sqrtn_call_def)
    ultimately show ?thesis using evs(1) by auto
  qed
qed





section \<open>Proofs: one step of the training loop\<close>

lemma maybe_step_eq:
  "maybe_step env args idx tr =
     (if accum_grad args = 0 then (tr, Some ZeroDivisionError)
      else if accum_grad args dvd int idx + 1 then (tr @ update_calls env args, None)
      else (tr, None))"
  by (simp add: maybe_step_def update_calls_def mod_eq_0_iff_dvd)

lemma train_step_shape:
  "\<exists>cevs uevs err.
     train_step env args tg st epoch idx s
       = (\<lparr> indices = random_shuffle env (trace s) (indices s),
            trace = trace s @ Shuffled (random_shuffle env (trace s) (indices s)) # cevs @ uevs \<rparr>,
          err) \<and>
     list_all (is_compute (py_slice_to (random_shuffle env (trace s) (indices s))
                             (batch_size args))) cevs \<and>
     ((err \<noteq> None \<and> uevs = []) \<or>
      (err = None \<and>
       (\<exists>loss. uevs = (if accum_grad args dvd int idx + 1 then update_calls env args else [])
                       @ [SetDescription epoch idx loss])))"
proof -
  let ?sh = "random_shuffle env (trace s) (indices s)"
  let ?b = "py_slice_to ?sh (batch_size args)"
  obtain tr1 r where c: "compute_loss env args tg st (trace s @ [Shuffled ?sh]) ?b = (tr1, r)"
    by (cases "compute_loss env args tg st (trace s @ [Shuffled ?sh]) ?b")
  from compute_loss_trace[of env args tg st "trace s @ [Shuffled ?sh]" ?b] c
  obtain cevs where cevs: "tr1 = (trace s @ [Shuffled ?sh]) @ cevs" "list_all (is_compute ?b) cevs"
    by auto
  show ?thesis
  proof (cases r)
    case (Inl e)
    with c cevs have "train_step env args tg st epoch idx s
        = (\<lparr> indices = ?sh, trace = trace s @ Shuffled ?sh # cevs @ [] \<rparr>, Some e)"
      by (simp add: train_step_def Let_def)
    with cevs(2) show ?thesis by blast
  next
    case (Inr loss)
    show ?thesis
    proof (cases "accum_grad args = 0")
      case True
      with c cevs Inr have "train_step env args tg st epoch idx s
        = (\<lparr> indices = ?sh, trace = trace s @ Shuffled ?sh # cevs @ [] \<rparr>, Some ZeroDivisionError)"
        by (simp add: train_step_def Let_def maybe_step_eq)
      with cevs(2) show ?thesis by blast
    next
      case False
      let ?u = "(if accum_grad args dvd int idx + 1 then update_calls env args else [])
                  @ [SetDescription epoch idx loss]"
      from False c cevs Inr have "train_step env args tg st epoch idx s
        = (\<lparr> indices = ?sh, trace = trace s @ Shuffled ?sh # cevs @ ?u \<rparr>, None)"
        by (simp add: train_step_def Let_def maybe_step_eq)
      with cevs(2) show ?thesis by blast
    qed
  qed
qed

lemma is_compute_not_update: "is_compute b e \<Longrightarrow> \<not> is_update e"
  by (cases e) simp_all

lemma filter_update_compute: "list_all (is_compute b) evs \<Longrightarrow> filter is_update evs = []"
  by (induction evs) (auto dest: is_compute_not_update)

lemma filter_update_calls: "filter is_update (update_calls env args) = update_calls env args"
  by (simp add: update_calls_def)

lemma step_events_update:
  "filter is_update (step_events env args tg st epoch idx s) =
     (if snd (train_step env args tg st epoch idx s) = None \<and> accum_grad args dvd int idx + 1
      then update_calls env args else [])"
proof -
  from train_step_shape[of env args tg st epoch idx s]
  obtain cevs uevs err where
    t: "train_step env args tg st epoch idx s
       = (\<lparr> indices = random_shuffle env (trace s) (indices s),
            trace = trace s @ Shuffled (random_shuffle env (trace s) (indices s)) # cevs @ uevs \<rparr>,
          err)"
    and c: "list_all (is_compute (py_slice_to (random_shuffle env (trace s) (indices s))
                             (batch_size args))) cevs"
    and u: "(err \<noteq> None \<and> uevs = []) \<or>
      (err = None \<and>
       (\<exists>loss. uevs = (if accum_grad args dvd int idx + 1 then update_calls env args else [])
                       @ [SetDescription epoch idx loss]))"
    by blast
  have e: "step_events env args tg st epoch idx s
             = Shuffled (random_shuffle env (trace s) (indices s)) # cevs @ uevs"
    by (simp add: step_events_def t)
  from u show ?thesis
  proof
    assume "err \<noteq> None \<and> uevs = []"
    then show ?thesis by (auto simp: e t filter_update_compute[OF c])
  next
    assume "err = None \<and>
       (\<exists>loss. uevs = (if accum_grad args dvd int idx + 1 then update_calls env args else [])
                       @ [SetDescription epoch idx loss])"
    then show ?thesis
      by (auto simp: e t filter_update_compute[OF c] filter_update_calls)
  qed
qed

lemma train_step_trace:
  "trace (fst (train_step env args tg st epoch idx s))
     = trace s @ step_events env args tg st epoch idx s"
  using train_step_shape[of env args tg st epoch idx s]
  by (auto simp: step_events_def)

lemma run_steps_updates:
  "run_steps env args tg st epoch idxs s = (s', err) \<Longrightarrow>
   \<exists>k\<le>length idxs.
     filter is_update (trace s')
       = filter is_update (trace s)
         @ concat (map (\<lambda>idx. if accum_grad args dvd int idx + 1 then update_calls env args
                               else []) (take k idxs)) \<and>
     (err = None \<longrightarrow> k = length idxs)"
proof (induction idxs arbitrary: s)
  case Nil
  then show ?case by simp
next
  case (Cons idx idxs)
  obtain s1 e1 where t: "train_step env args tg st epoch idx s = (s1, e1)"
    by (cases "train_step env args tg st epoch idx s")
  have tr: "trace s1 = trace s @ step_events env args tg st epoch idx s"
    using train_step_trace[of env args tg st epoch idx s] t by simp
  have up: "filter is_update (step_events env args tg st epoch idx s)
              = (if e1 = None \<and> accum_grad args dvd int idx + 1 then update_calls env args else [])"
    using step_events_update[of env args tg st epoch idx s] t by simp
  show ?case
  proof (cases e1)
    case (Some e)
    with Cons.prems t have "s' = s1" "err = Some e" by simp_all
    with tr up Some have "0 \<le> length (idx # idxs) \<and>
       filter is_update (trace s')
       = filter is_update (trace s)
         @ concat (map (\<lambda>idx. if accum_grad args dvd int idx + 1 then update_calls env args
                               else []) (take 0 (idx # idxs))) \<and>
       (err = None \<longrightarrow> 0 = length (idx # idxs))"
      by simp
    then show ?thesis by blast
  next
    case None
    with Cons.prems t have "run_steps env args tg st epoch idxs s1 = (s', err)" by simp
    from Cons.IH[OF this] obtain k where k: "k \<le> length idxs"
      "filter is_update (trace s')
       = filter is_update (trace s1)
         @ concat (map (\<lambda>idx. if accum_grad args dvd int idx + 1 then update_calls env args
                               else []) (take k idxs))"
      "err = None \<longrightarrow> k = length idxs"
      by blast
    with tr up None have "Suc k \<le> length (idx # idxs) \<and>
       filter is_update (trace s')
       = filter is_update (trace s)
         @ concat (map (\<lambda>idx. if accum_grad args dvd int idx + 1 then update_calls env args
                               else []) (take (Suc k) (idx # idxs))) \<and>
       (err = None \<longrightarrow> Suc k = length (idx # idxs))"
      by simp
    then show ?thesis by blast
  qed
qed

section \<open>Proofs: the epochs of the training loop\<close>

lemma train_epoch_updates:
  assumes "train_epoch env args tg st epoch s = (s', err)"
  shows "\<exists>k\<le>nat (epoch_save args).
           filter is_update (trace s') = filter is_update (trace s) @ epoch_updates env args k \<and>
           (err = None \<longrightarrow> k = nat (epoch_save args))"
proof -
  let ?n = "nat (epoch_save args)"
  let ?s0 = "s\<lparr> trace := trace s @ [ZeroGrad] \<rparr>"
  let ?u = "\<lambda>idx. if accum_grad args dvd int idx + 1 then update_calls env args else []"
  obtain s1 e1 where r: "run_steps env args tg st epoch [0 ..< ?n] ?s0 = (s1, e1)"
    by (cases "run_steps env args tg st epoch [0 ..< ?n] ?s0")
  from run_steps_updates [OF r] obtain k where k0: "k \<le> length [0 ..< ?n]"
    and k2: "filter is_update (trace s1)
          = filter is_update (trace ?s0) @ concat (map ?u (take k [0 ..< ?n]))"
    and k3: "e1 = None \<longrightarrow> k = length [0 ..< ?n]"
    by blast
  from k0 have k1: "k \<le> ?n" by simp
  from k3 have k3': "e1 = None \<longrightarrow> k = ?n" by simp
  from k1 have t: "take k [0 ..< ?n] = [0 ..< k]"
    by simp
  have u1: "filter is_update (trace s1) = filter is_update (trace s) @ epoch_updates env args k"
    unfolding k2 t by (simp add: epoch_updates_def)
  note k = k1 k2 k3' 
  show ?thesis
  proof (cases e1)
    case None
    with assms r have "s' = s1\<lparr> trace := trace s1 @ [SaveCheckpoint epoch] \<rparr>" "err = None"
      by (simp_all add: train_epoch_def)
    with u1 k(1,3) None show ?thesis by auto
  next
    case (Some e)
    with assms r have "s' = s1" "err = Some e"
      by (simp_all add: train_epoch_def)
    with u1 k(1) show ?thesis by auto
  qed
qed

lemma run_epochs_updates:
  "run_epochs env args tg st epochs s = (s', err) \<Longrightarrow>
   \<exists>ks. length ks \<le> length epochs \<and> (\<forall>k\<in>set ks. k \<le> nat (epoch_save args)) \<and>
     filter is_update (trace s')
       = filter is_update (trace s) @ concat (map (epoch_updates env args) ks) \<and>
     (err = None \<longrightarrow> ks = replicate (length epochs) (nat (epoch_save args)))"
proof (induction epochs arbitrary: s)
  case Nil
  then have "length ([] :: nat list) \<le> length ([] :: nat list) \<and>
     (\<forall>k\<in>set ([] :: nat list). k \<le> nat (epoch_save args)) \<and>
     filter is_update (trace s')
       = filter is_update (trace s) @ concat (map (epoch_updates env args) []) \<and>
     (err = None \<longrightarrow> [] = replicate (length ([] :: nat list)) (nat (epoch_save args)))"
    by simp
  then show ?case by blast
next
  case (Cons epoch epochs)
  obtain s1 e1 where t: "train_epoch env args tg st epoch s = (s1, e1)"
    by (cases "train_epoch env args tg st epoch s")
  from train_epoch_updates [OF t] obtain k where k: "k \<le> nat (epoch_save args)"
    "filter is_update (trace s1) = filter is_update (trace s) @ epoch_updates env args k"
    "e1 = None \<longrightarrow> k = nat (epoch_save args)"
    by blast
  show ?case
  proof (cases e1)
    case (Some e)
    with Cons.prems t have "s' = s1" "err = Some e" by simp_all
    with k have "length [k] \<le> length (epoch # epochs) \<and>
       (\<forall>j\<in>set [k]. j \<le> nat (epoch_save args)) \<and>
       filter is_update (trace s')
         = filter is_update (trace s) @ concat (map (epoch_updates env args) [k]) \<and>
       (err = None \<longrightarrow> [k] = replicate (length (epoch # epochs)) (nat (epoch_save args)))"
      by simp
    then show ?thesis by blast
  next
    case None
    with Cons.prems t have "run_epochs env args tg st epochs s1 = (s', err)" by simp
    from Cons.IH [OF this] obtain ks where ks: "length ks \<le> length epochs"
      "\<forall>j\<in>set ks. j \<le> nat (epoch_save args)"
      "filter is_update (trace s')
         = filter is_update (trace s1) @ concat (map (epoch_updates env args) ks)"
      "err = None \<longrightarrow> ks = replicate (length epochs) (nat (epoch_save args))"
      by blast
    from None k(3) have kn: "k = nat (epoch_save args)" by simp
    with k ks have "length (k # ks) \<le> length (epoch # epochs) \<and>
       (\<forall>j\<in>set (k # ks). j \<le> nat (epoch_save args)) \<and>
       filter is_update (trace s')
         = filter is_update (trace s) @ concat (map (epoch_updates env args) (k # ks)) \<and>
       (err = None \<longrightarrow> k # ks = replicate (length (epoch # epochs)) (nat (epoch_save args)))"
      by simp
    then show ?thesis by blast
  qed
qed

lemma train_updates:
  "\<exists>ks. length ks \<le> nat (num_epochs args) \<and> (\<forall>k\<in>set ks. k \<le> nat (epoch_save args)) \<and>
     filter is_update (trace (fst (train env args tg st)))
       = concat (map (epoch_updates env args) ks) \<and>
     (snd (train env args tg st) = None \<longrightarrow>
        ks = replicate (nat (num_epochs args)) (nat (epoch_save args)))"
proof -
  obtain s' err where r: "train env args tg st = (s', err)"
    by (cases "train env args tg st")
  then have "run_epochs env args tg st [0 ..< nat (num_epochs args)]
               \<lparr> indices = [0 ..< length tg], trace = [] \<rparr> = (s', err)"
    by (simp add: train_def)
  from run_epochs_updates [OF this] show ?thesis
    unfolding r by simp
qed

text \<open>
  C7, amended. The calls on the optimizer and on the gradients within one step are the
  update (clipping if the clip norm is positive, then the optimizer step, then the reset of
  the gradients) when the step completes and its 1-based index is a multiple of
  \<open>accum_grad\<close>, and none at all otherwise. Over the steps of an epoch, run until the end
  or until an exception, these calls are the updates of the completed steps whose 1-based
  index is a multiple of \<open>accum_grad\<close>, in order. Over the whole training loop they are,
  for each epoch begun, the reset of the gradients at the start of the epoch followed by
  these updates of its steps, and nothing else; a run without exception has all its epochs
  with all their steps.
\<close>

theorem optimizer_step_schedule:
  "filter is_update (step_events env args tg st epoch idx s)
     = (if snd (train_step env args tg st epoch idx s) = None \<and> accum_grad args dvd int idx + 1
        then (if fl_pos env (grad_clip args) then [ClipGradNorm (grad_clip args)] else [])
             @ [OptimizerStep, ZeroGrad]
        else []) \<and>
   (\<forall>s' err. run_steps env args tg st epoch idxs s = (s', err) \<longrightarrow>
      (\<exists>k\<le>length idxs.
         filter is_update (trace s')
           = filter is_update (trace s)
             @ concat (map (\<lambda>idx. if accum_grad args dvd int idx + 1
                                   then update_calls env args else []) (take k idxs)) \<and>
         (err = None \<longrightarrow> k = length idxs))) \<and>
   (\<exists>ks. length ks \<le> nat (num_epochs args) \<and> (\<forall>k\<in>set ks. k \<le> nat (epoch_save args)) \<and>
      filter is_update (trace (fst (train env args tg st)))
        = concat (map (epoch_updates env args) ks) \<and>
      (snd (train env args tg st) = None \<longrightarrow>
         ks = replicate (nat (num_epochs args)) (nat (epoch_save args))))"
proof (intro conjI)
  show "filter is_update (step_events env args tg st epoch idx s)
     = (if snd (train_step env args tg st epoch idx s) = None \<and> accum_grad args dvd int idx + 1
        then (if fl_pos env (grad_clip args) then [ClipGradNorm (grad_clip args)] else [])
             @ [OptimizerStep, ZeroGrad]
        else [])"
    using step_events_update [of env args tg st epoch idx s] by (simp add: update_calls_def)
  show "\<forall>s' err. run_steps env args tg st epoch idxs s = (s', err) \<longrightarrow>
      (\<exists>k\<le>length idxs.
         filter is_update (trace s')
           = filter is_update (trace s)
             @ concat (map (\<lambda>idx. if accum_grad args dvd int idx + 1
                                   then update_calls env args else []) (take k idxs)) \<and>
         (err = None \<longrightarrow> k = length idxs))"
    using run_steps_updates [of env args tg st epoch idxs s] by blast
  show "\<exists>ks. length ks \<le> nat (num_epochs args) \<and> (\<forall>k\<in>set ks. k \<le> nat (epoch_save args)) \<and>
      filter is_update (trace (fst (train env args tg st)))
        = concat (map (epoch_updates env args) ks) \<and>
      (snd (train env args tg st) = None \<longrightarrow>
         ks = replicate (nat (num_epochs args)) (nat (epoch_save args)))"
    by (rule train_updates)
qed

section \<open>Proofs: the batches of a run\<close>















section \<open>Proofs: an example run\<close>

lemmas example_defs = args_of_def rat_env_def len_graph_def scenario_graph_def four_nodes_def

lemma example_step_0:
  "train_step rat_env (args_of 2 (- 1) 2) [scenario_graph, four_nodes] [(4, 1), (4, 0)] 0 0
     \<lparr> indices = [0, 1], trace = [ZeroGrad] \<rparr>
   = (\<lparr> indices = [1, 0],
        trace = [ZeroGrad, Shuffled [1, 0], ForwardTrain [1, 0] [(0, 0), (0, 1)] (- 2),
                 Backward (2 / 9), SetDescription 0 0 (2 / 9)] \<rparr>, None)"
  by (simp add: train_step_def compute_loss_def maybe_step_def py_slice_to_def py_index_def
        Let_def example_defs)

lemma example_step_1:
  "train_step rat_env (args_of 2 (- 1) 2) [scenario_graph, four_nodes] [(4, 1), (4, 0)] 0 1
     \<lparr> indices = [1, 0],
       trace = [ZeroGrad, Shuffled [1, 0], ForwardTrain [1, 0] [(0, 0), (0, 1)] (- 2),
                Backward (2 / 9), SetDescription 0 0 (2 / 9)] \<rparr>
   = (\<lparr> indices = [0, 1],
        trace = [ZeroGrad, Shuffled [1, 0], ForwardTrain [1, 0] [(0, 0), (0, 1)] (- 2),
                 Backward (2 / 9), SetDescription 0 0 (2 / 9),
                 Shuffled [0, 1], ForwardTrain [0, 1] [(0, 1), (0, 0)] (- 2),
                 Backward (2 / 9), ClipGradNorm 5, OptimizerStep, ZeroGrad,
                 SetDescription 0 1 (2 / 9)] \<rparr>, None)"
  by (simp add: train_step_def compute_loss_def maybe_step_def py_slice_to_def py_index_def
        Let_def example_defs)

lemma example_steps:
  "run_steps rat_env (args_of 2 (- 1) 2) [scenario_graph, four_nodes] [(4, 1), (4, 0)] 0 [0, 1]
     \<lparr> indices = [0, 1], trace = [ZeroGrad] \<rparr>
   = (\<lparr> indices = [0, 1],
        trace = [ZeroGrad, Shuffled [1, 0], ForwardTrain [1, 0] [(0, 0), (0, 1)] (- 2),
                 Backward (2 / 9), SetDescription 0 0 (2 / 9),
                 Shuffled [0, 1], ForwardTrain [0, 1] [(0, 1), (0, 0)] (- 2),
                 Backward (2 / 9), ClipGradNorm 5, OptimizerStep, ZeroGrad,
                 SetDescription 0 1 (2 / 9)] \<rparr>, None)"
  by (simp add: example_step_0[simplified] example_step_1[simplified])

lemma example_train:
  "train rat_env (args_of 2 (- 1) 2) [scenario_graph, four_nodes] [(4, 1), (4, 0)]
   = (\<lparr> indices = [0, 1],
        trace = [ZeroGrad, Shuffled [1, 0], ForwardTrain [1, 0] [(0, 0), (0, 1)] (- 2),
                 Backward (2 / 9), SetDescription 0 0 (2 / 9),
                 Shuffled [0, 1], ForwardTrain [0, 1] [(0, 1), (0, 0)] (- 2),
                 Backward (2 / 9), ClipGradNorm 5, OptimizerStep, ZeroGrad,
                 SetDescription 0 1 (2 / 9), SaveCheckpoint 0] \<rparr>, None)"
proof -
  have e: "epoch_save (args_of 2 (- 1) 2) = 2" "num_epochs (args_of 2 (- 1) 2) = 1"
    by (simp_all add: args_of_def)
  have u: "[0 ..< (2::nat)] = [0, Suc 0]"
    by (simp add: numeral_2_eq_2)
  show ?thesis
    by (simp add: train_def train_epoch_def e u example_steps[simplified])
qed

theorem optimizer_step_schedule_witness:
  "filter is_update (step_events rat_env (args_of 2 (- 1) 2) [scenario_graph, four_nodes]
                       [(4, 1), (4, 0)] 0 0 \<lparr> indices = [0, 1], trace = [ZeroGrad] \<rparr>) = [] \<and>
   filter is_update (step_events rat_env (args_of 2 (- 1) 2) [scenario_graph, four_nodes]
                       [(4, 1), (4, 0)] 0 1 \<lparr> indices = [0, 1], trace = [ZeroGrad] \<rparr>)
     = [ClipGradNorm 5, OptimizerStep, ZeroGrad] \<and>
   snd (run_steps rat_env (args_of 2 (- 1) 2) [scenario_graph, four_nodes] [(4, 1), (4, 0)] 0
          [0, 1] \<lparr> indices = [0, 1], trace = [ZeroGrad] \<rparr>) = None \<and>
   filter is_update (trace (fst (run_steps rat_env (args_of 2 (- 1) 2)
          [scenario_graph, four_nodes] [(4, 1), (4, 0)] 0 [0, 1]
          \<lparr> indices = [0, 1], trace = [ZeroGrad] \<rparr>)))
     = [ZeroGrad, ClipGradNorm 5, OptimizerStep, ZeroGrad] \<and>
   filter is_update (trace (fst (train rat_env (args_of 2 (- 1) 2)
          [scenario_graph, four_nodes] [(4, 1), (4, 0)])))
     = [ZeroGrad, ClipGradNorm 5, OptimizerStep, ZeroGrad]"
proof -
  let ?A = "args_of 2 (- 1) 2" and ?G = "[scenario_graph, four_nodes]"
  let ?S = "[(4::int, 1::int), (4, 0)]" and ?s = "\<lparr> indices = [0, 1], trace = [ZeroGrad] \<rparr> :: rat tstate"
  have n0: "snd (train_step rat_env ?A ?G ?S 0 0 ?s) = None"
    by (simp add: example_step_0[simplified])
  have n1: "snd (train_step rat_env ?A ?G ?S 0 1 ?s) = None"
    by (simp add: train_step_def compute_loss_def maybe_step_def py_slice_to_def py_index_def
        Let_def example_defs)
  have d: "\<not> accum_grad ?A dvd int 0 + 1" "accum_grad ?A dvd int 1 + 1" "fl_pos rat_env (grad_clip ?A)"
    by (simp_all add: example_defs)
  from optimizer_step_schedule [of rat_env ?A ?G ?S 0 0 ?s "[0, 1]"] n0 d
  have a: "filter is_update (step_events rat_env ?A ?G ?S 0 0 ?s) = []"
    by simp
  from optimizer_step_schedule [of rat_env ?A ?G ?S 0 1 ?s "[0, 1]"] n1 d
  have b: "filter is_update (step_events rat_env ?A ?G ?S 0 1 ?s)
             = [ClipGradNorm 5, OptimizerStep, ZeroGrad]"
    by (simp add: args_of_def)
  show ?thesis using a b by (simp add: example_steps[simplified] example_train[simplified])
qed

lemma two_epoch_run:
  "train rat_env two_epoch_args [scenario_graph, four_nodes] [(4, 1), (4, 0)]
   = (\<lparr> indices = [0, 1],
        trace = [ZeroGrad, Shuffled [1, 0], ForwardTrain [1] [(0, 0)] (- 1), Backward (1 / 4),
                 SetDescription 0 0 (1 / 4), SaveCheckpoint 0,
                 ZeroGrad, Shuffled [0, 1], ForwardTrain [0] [(0, 1)] (- 1), Backward (1 / 5),
                 SetDescription 1 0 (1 / 5), SaveCheckpoint 1] \<rparr>, None)"
proof -
  have u: "[0 ..< (2::nat)] = [0, Suc 0]"
    by (simp add: numeral_2_eq_2)
  show ?thesis
    by (simp add: train_def train_epoch_def train_step_def compute_loss_def maybe_step_def
          py_slice_to_def py_index_def Let_def two_epoch_args_def u example_defs)
qed

text \<open>
  C7, as the code has it. With an accumulation window of two and epochs of a single step,
  no step has a 1-based index that is a multiple of the window, and the optimizer is never
  stepped; yet the gradients are reset twice, by line 143 at the start of each epoch.
\<close>

theorem epoch_start_resets_gradients:
  "accum_grad two_epoch_args = 2 \<and> epoch_save two_epoch_args = 1 \<and>
   snd (train rat_env two_epoch_args [scenario_graph, four_nodes] [(4, 1), (4, 0)]) = None \<and>
   trace (fst (train rat_env two_epoch_args [scenario_graph, four_nodes] [(4, 1), (4, 0)]))
     = [ZeroGrad, Shuffled [1, 0], ForwardTrain [1] [(0, 0)] (- 1), Backward (1 / 4),
        SetDescription 0 0 (1 / 4), SaveCheckpoint 0,
        ZeroGrad, Shuffled [0, 1], ForwardTrain [0] [(0, 1)] (- 1), Backward (1 / 5),
        SetDescription 1 0 (1 / 5), SaveCheckpoint 1] \<and>
   filter is_update
     (trace (fst (train rat_env two_epoch_args [scenario_graph, four_nodes] [(4, 1), (4, 0)])))
     = [ZeroGrad, ZeroGrad]"
proof -
  have a: "accum_grad two_epoch_args = 2 \<and> epoch_save two_epoch_args = 1"
    by (simp add: two_epoch_args_def)
  show ?thesis
    using a by (simp add: two_epoch_run [simplified])
qed


end
